theory Spec2Isabelle
  imports Complex_Main "HOL-Library.Char_ord" "HOL-Library.List_Lexorder"
begin

section \<open>Data model\<close>

subsection \<open>HTTP status codes\<close>

text \<open>
  Modelled from the spec: \<^verbatim>\<open>requests.status_codes.codes\<close> is a table of a third-party
  library, not part of the repository. The names used by \<^verbatim>\<open>sessions.py\<close> get the
  numbers of the spec's section 6 (the registered HTTP status codes).
\<close>

definition codes_ok :: int where "codes_ok = 200"
definition codes_created :: int where "codes_created = 201"
definition codes_no_content :: int where "codes_no_content = 204"
definition codes_found :: int where "codes_found = 302"
definition codes_bad_request :: int where "codes_bad_request = 400"
definition codes_unauthorized :: int where "codes_unauthorized = 401"
definition codes_forbidden :: int where "codes_forbidden = 403"
definition codes_not_found :: int where "codes_not_found = 404"
definition codes_conflict :: int where "codes_conflict = 409"
definition codes_request_entity_too_large :: int where "codes_request_entity_too_large = 413"
definition codes_media_type :: int where "codes_media_type = 415"
definition codes_unavailable_for_legal_reasons :: int where
  "codes_unavailable_for_legal_reasons = 451"
definition codes_internal_server_error :: int where "codes_internal_server_error = 500"
definition codes_bad_gateway :: int where "codes_bad_gateway = 502"
definition codes_service_unavailable :: int where "codes_service_unavailable = 503"
definition codes_gateway_timeout :: int where "codes_gateway_timeout = 504"

subsection \<open>Responses\<close>

text \<open>
  What \<^verbatim>\<open>await response.json()\<close> does: it returns the decoded value, raises
  \<^verbatim>\<open>ValueError\<close> (the only exception \<^verbatim>\<open>_request_with_retries\<close> catches there), or
  raises something else, which propagates.
\<close>

datatype 'j json_outcome = Decoded 'j | ValueError | OtherError string

text \<open>
  A response as the session reads it: \<^verbatim>\<open>response.status\<close>, \<^verbatim>\<open>response.headers\<close>
  (looked up with \<^verbatim>\<open>.get\<close>) and \<^verbatim>\<open>response.json()\<close>.
\<close>

record 'j response =
  status :: int
  headers :: "(string \<times> string) list"
  json_body :: "'j json_outcome"

definition headers_get :: "(string \<times> string) list \<Rightarrow> string \<Rightarrow> string option" where
  "headers_get hs k = map_of hs k"

subsection \<open>Python values, dictionaries and the object store\<close>

datatype pyval = PyStr string | PyInt int

text \<open>
  A \<^verbatim>\<open>dict\<close> with string keys is the list of its items in insertion order; its keys are
  distinct. Dictionaries are mutable objects, so they live in a store and are passed by
  address; \<^verbatim>\<open>deepcopy\<close> allocates a new object.
\<close>

type_synonym pydict = "(string \<times> pyval) list"
type_synonym addr = nat
type_synonym heap = "pydict list"

fun dict_setitem :: "string \<Rightarrow> pyval \<Rightarrow> pydict \<Rightarrow> pydict" where
  "dict_setitem k v [] = [(k, v)]"
| "dict_setitem k v ((k', v') # d) =
     (if k' = k then (k, v) # d else (k', v') # dict_setitem k v d)"

definition alloc :: "heap \<Rightarrow> pydict \<Rightarrow> heap \<times> addr" where
  "alloc h d = (h @ [d], length h)"

definition deepcopy :: "heap \<Rightarrow> addr \<Rightarrow> heap \<times> addr" where
  "deepcopy h a = alloc h (h ! a)"

text \<open>
  The \<^verbatim>\<open>data\<close> argument: \<^verbatim>\<open>None\<close>, a \<^verbatim>\<open>dict\<close> (by address), anything else (bytes, a
  file-like object), or, after \<^verbatim>\<open>Session.request\<close> has canonicalised a dict, the sorted
  list of its items.
\<close>

datatype body = NoData | DictData addr | RawData string | ItemsData "(string \<times> pyval) list"

subsection \<open>Transport\<close>

text \<open>
  The causes of a transport failure. \<^verbatim>\<open>RETRY_EXCEPTIONS\<close> names three classes of
  \<^verbatim>\<open>requests.exceptions\<close>; every other exception is an \<^verbatim>\<open>OtherCause\<close>.
\<close>

datatype cause = ChunkedEncodingError | ConnectionError | ReadTimeout | OtherCause string

definition RETRY_EXCEPTIONS :: "cause set" where
  "RETRY_EXCEPTIONS = {ChunkedEncodingError, ConnectionError, ReadTimeout}"

text \<open>The keyword arguments \<^verbatim>\<open>_make_request\<close> and the rate limiter hand to the transport.\<close>

record 'j kwargs =
  allow_redirects :: bool
  kw_data :: body
  kw_json :: "'j option"
  kw_params :: addr
  kw_headers :: "(string \<times> string) list"

text \<open>
  \<^verbatim>\<open>RequestException(exc, args, kwargs)\<close>: the uniform transport exception of
  \<^verbatim>\<open>Requestor.request\<close>, with the original exception and the call's positional and
  keyword arguments.
\<close>

datatype 'j request_exception = RequestException cause "string list" "'j kwargs"

fun original_exception :: "'j request_exception \<Rightarrow> cause" where
  "original_exception (RequestException exc a k) = exc"

fun request_args :: "'j request_exception \<Rightarrow> string list" where
  "request_args (RequestException exc a k) = a"

fun request_kwargs :: "'j request_exception \<Rightarrow> 'j kwargs" where
  "request_kwargs (RequestException exc a k) = k"

text \<open>What the underlying HTTP session does with one request.\<close>

datatype 'j outcome = Returns "'j response" | Raises cause

subsection \<open>Errors and results\<close>

text \<open>
  The exceptions a call can end with. Each status-derived exception is constructed from
  the response, as \<^verbatim>\<open>STATUS_EXCEPTIONS[response.status](response)\<close> does.
  \<^verbatim>\<open>AuthorizationError r\<close> is the exception \<^verbatim>\<open>authorization_error_class(r)\<close>.
  \<^verbatim>\<open>RequestError\<close> is the \<^verbatim>\<open>RequestException\<close> of the Requestor,
  \<^verbatim>\<open>AssertionError\<close> the failed assertion on the status, \<^verbatim>\<open>AttributeError\<close> what
  reading \<^verbatim>\<open>.status\<close> of \<^verbatim>\<open>None\<close> raises, and \<^verbatim>\<open>Propagated\<close> an exception of
  \<^verbatim>\<open>response.json()\<close> other than \<^verbatim>\<open>ValueError\<close>.
\<close>

datatype 'j error =
    BadJSON "'j response"
  | BadRequest "'j response"
  | Conflict "'j response"
  | NotFound "'j response"
  | Redirect "'j response"
  | ServerError "'j response"
  | SpecialError "'j response"
  | TooLarge "'j response"
  | UnavailableForLegalReasons "'j response"
  | AuthorizationError "'j response"
  | RequestError "'j request_exception"
  | AssertionError int
  | AttributeError
  | Propagated string

text \<open>
  Modelled from the spec: \<^verbatim>\<open>authorization_error_class\<close> (\<^verbatim>\<open>asyncprawcore/util.py\<close>)
  is not among the sources. The session calls it with the response as its only argument,
  and the spec says that a status-derived error carries the raw response; which variant of
  the authorization error it builds is left open, as a function of that response.
\<close>

definition authorization_error_class :: "'j response \<Rightarrow> 'j error" where
  "authorization_error_class r = AuthorizationError r"

text \<open>The response an exception carries, if it carries one.\<close>

fun error_response :: "'j error \<Rightarrow> 'j response option" where
  "error_response (BadJSON r) = Some r"
| "error_response (BadRequest r) = Some r"
| "error_response (Conflict r) = Some r"
| "error_response (NotFound r) = Some r"
| "error_response (Redirect r) = Some r"
| "error_response (ServerError r) = Some r"
| "error_response (SpecialError r) = Some r"
| "error_response (TooLarge r) = Some r"
| "error_response (UnavailableForLegalReasons r) = Some r"
| "error_response (AuthorizationError r) = Some r"
| "error_response (RequestError e) = None"
| "error_response (AssertionError s) = None"
| "error_response AttributeError = None"
| "error_response (Propagated m) = None"

text \<open>
  What a call returns: the decoded JSON value, the empty string (\<^verbatim>\<open>return ""\<close>) or
  \<^verbatim>\<open>None\<close> (the bare \<^verbatim>\<open>return\<close> on 204).
\<close>

datatype 'j result = Json 'j | EmptyString | NoContent

section \<open>The session's class constants\<close>

definition RETRY_STATUSES :: "int set" where
  "RETRY_STATUSES =
     {520, 522, codes_bad_gateway, codes_gateway_timeout, codes_internal_server_error,
      codes_service_unavailable}"

definition STATUS_EXCEPTIONS :: "int \<rightharpoonup> ('j response \<Rightarrow> 'j error)" where
  "STATUS_EXCEPTIONS =
     [codes_bad_gateway \<mapsto> ServerError,
      codes_bad_request \<mapsto> BadRequest,
      codes_conflict \<mapsto> Conflict,
      codes_found \<mapsto> Redirect,
      codes_forbidden \<mapsto> authorization_error_class,
      codes_gateway_timeout \<mapsto> ServerError,
      codes_internal_server_error \<mapsto> ServerError,
      codes_media_type \<mapsto> SpecialError,
      codes_not_found \<mapsto> NotFound,
      codes_request_entity_too_large \<mapsto> TooLarge,
      codes_service_unavailable \<mapsto> ServerError,
      codes_unauthorized \<mapsto> authorization_error_class,
      codes_unavailable_for_legal_reasons \<mapsto> UnavailableForLegalReasons,
      520 \<mapsto> ServerError,
      522 \<mapsto> ServerError]"

definition SUCCESS_STATUSES :: "int set" where
  "SUCCESS_STATUSES = {codes_created, codes_ok}"

section \<open>Collaborators\<close>

subsection \<open>The Authorizer\<close>

text \<open>
  Modelled from the spec: the Authorizer (\<^verbatim>\<open>asyncprawcore/auth.py\<close>) is not among the
  sources. The spec describes it as owning the token state, with a validity check, the
  cached token, an optional refresh and token invalidation. Here the validity check
  succeeds when a token is cached, invalidation drops the cached token and a refresh
  caches a newly issued one. \<^verbatim>\<open>has_refresh\<close> is \<^verbatim>\<open>hasattr(authorizer, "refresh")\<close>.
\<close>

record authorizer =
  access_token :: "string option"
  has_refresh :: bool

text \<open>
  Modelled from the spec: \<^verbatim>\<open>Authorizer.is_valid\<close>, the validity check (any expiry
  time is left out: an expired token is a token that is not cached).
\<close>

definition is_valid :: "authorizer \<Rightarrow> bool" where
  "is_valid a = (access_token a \<noteq> None)"

text \<open>Modelled from the spec: \<^verbatim>\<open>Authorizer._clear_access_token\<close>, the token invalidation.\<close>

definition clear_access_token :: "authorizer \<Rightarrow> authorizer" where
  "clear_access_token a = a\<lparr>access_token := None\<rparr>"

subsection \<open>The environment and the state of a call\<close>

text \<open>
  Everything a call reads from outside: the underlying HTTP session (what it does with
  the \<open>n\<close>-th request it is handed), the timeout constant \<^verbatim>\<open>TIMEOUT\<close> of
  \<^verbatim>\<open>const.py\<close>, the successive values of \<^verbatim>\<open>random.random()\<close> (binary64 numbers
  in \<open>[0, 1)\<close>; CPython draws the multiples of \<open>2\<^sup>-\<^sup>5\<^sup>3\<close> there), the tokens
  the successive refreshes obtain, the Requestor's \<^verbatim>\<open>oauth_url\<close> and \<^verbatim>\<open>urljoin\<close>.
\<close>

record 'j env =
  http :: "nat \<Rightarrow> string list \<Rightarrow> real \<Rightarrow> 'j kwargs \<Rightarrow> 'j outcome"
  TIMEOUT :: real
  rand :: "nat \<Rightarrow> real"
  issued :: "nat \<Rightarrow> string"
  oauth_url :: string
  urljoin :: "string \<Rightarrow> string \<Rightarrow> string"

text \<open>
  The state a call threads: the Authorizer, and how many requests, random draws and
  refreshes have happened so far (the positions in the environment's sequences).
\<close>

record state =
  auth :: authorizer
  requests_made :: nat
  draws :: nat
  refreshes :: nat

text \<open>
  The effects of a call, in the order they happen. \<open>Enter n\<close> marks an invocation of
  \<^verbatim>\<open>_request_with_retries\<close> with \<^verbatim>\<open>retries = n\<close>; \<open>Sleep\<close> is \<^verbatim>\<open>time.sleep\<close>;
  \<open>Fetching\<close> is \<^verbatim>\<open>_log_request\<close>; \<open>Refresh\<close> is \<^verbatim>\<open>authorizer.refresh()\<close>;
  \<open>Dispatch\<close> is the request handed to the HTTP session; \<open>Response\<close> is the debug
  line of \<^verbatim>\<open>_make_request\<close> with the status and the content length; \<open>ClearToken\<close> is
  \<^verbatim>\<open>authorizer._clear_access_token()\<close>; \<open>Retrying\<close> is the warning of
  \<^verbatim>\<open>_do_retry\<close>, with the exception or the status it reports.
\<close>

datatype 'j event =
    Enter int
  | Sleep real
  | Fetching
  | Refresh
  | Dispatch "string list" "'j kwargs"
  | Response int "string option"
  | ClearToken
  | Retrying "cause + int"

text \<open>
  Modelled from the spec: \<^verbatim>\<open>Authorizer.refresh\<close>, which caches the token the
  environment issues next; the state counts the refreshes.
\<close>

definition refresh :: "'j env \<Rightarrow> state \<Rightarrow> state" where
  "refresh E s =
     s\<lparr>auth := (auth s)\<lparr>access_token := Some (issued E (refreshes s))\<rparr>,
       refreshes := refreshes s + 1\<rparr>"

subsection \<open>The Requestor\<close>

text \<open>
  \<^verbatim>\<open>Requestor.request\<close>: the request goes to the HTTP session with the timeout; any
  exception is raised again as a \<^verbatim>\<open>RequestException\<close> with the exception and the
  call's arguments. (\<^verbatim>\<open>except Exception\<close> leaves cancellation and the other
  non-\<^verbatim>\<open>Exception\<close> exits alone; they are not causes here.)
\<close>

definition Requestor_request ::
  "'j env \<Rightarrow> string list \<Rightarrow> 'j kwargs \<Rightarrow> state
    \<Rightarrow> 'j event list \<times> state \<times> ('j request_exception + 'j response)" where
  "Requestor_request E args kwargs s =
     (let s' = s\<lparr>requests_made := requests_made s + 1\<rparr> in
      case http E (requests_made s) args (TIMEOUT E) kwargs of
        Returns r \<Rightarrow> ([Dispatch args kwargs], s', Inr r)
      | Raises exc \<Rightarrow> ([Dispatch args kwargs], s', Inl (RequestException exc args kwargs)))"

section \<open>The session\<close>

text \<open>
  The arguments of one logical call, as \<^verbatim>\<open>Session.request\<close> passes them on
  (\<open>meth\<close> is the source's \<^verbatim>\<open>method\<close>).
\<close>

record 'j call =
  data :: body
  files :: "(string \<times> string) list option"
  json :: "'j option"
  meth :: string
  params :: addr
  url :: string

text \<open>
  Binary64 arithmetic, as far as \<^verbatim>\<open>_retry_sleep\<close> uses it. Doubling a binary64 number
  below 1 is exact. Adding 0 is exact. Otherwise the sum is that of 2 and a number in
  \<open>[0, 2)\<close>: in \<open>[2, 4]\<close> the binary64 numbers are the multiples of \<open>2\<^sup>-\<^sup>5\<^sup>1\<close>, and the
  sum is the nearest of them, the one with the even multiple when two are equally near.
\<close>

definition round_half_even :: "real \<Rightarrow> int" where
  "round_half_even x =
     (let f = \<lfloor>x\<rfloor>; r = x - of_int f
      in if r < 1 / 2 then f else if 1 / 2 < r then f + 1 else if even f then f else f + 1)"

definition binary64_add :: "real \<Rightarrow> real \<Rightarrow> real" where
  "binary64_add a b =
     (if a = 0 then b else if b = 0 then a
      else of_int (round_half_even ((a + b) * 2 ^ 51)) / 2 ^ 51)"

text \<open>
  \<^verbatim>\<open>Session._retry_sleep\<close>; \<^verbatim>\<open>base + 2 * random.random()\<close> is a binary64
  computation.
\<close>

definition retry_sleep :: "'j env \<Rightarrow> int \<Rightarrow> state \<Rightarrow> 'j event list \<times> state" where
  "retry_sleep E retries s =
     (if retries < 3 then
        let base = (if retries = 2 then 0 else 2);
            sleep_seconds = binary64_add base (2 * rand E (draws s))
        in ([Sleep sleep_seconds], s\<lparr>draws := draws s + 1\<rparr>)
      else ([], s))"

text \<open>\<^verbatim>\<open>Session._set_header_callback\<close>.\<close>

definition token_text :: "string option \<Rightarrow> string" where
  "token_text t = (case t of None \<Rightarrow> ''None'' | Some x \<Rightarrow> x)"

definition set_header_callback ::
  "'j env \<Rightarrow> state \<Rightarrow> 'j event list \<times> state \<times> (string \<times> string) list" where
  "set_header_callback E s =
     (let (ev, s') =
            (if \<not> is_valid (auth s) \<and> has_refresh (auth s) then ([Refresh], refresh E s)
             else ([], s))
      in (ev, s', [(''Authorization'', ''bearer '' @ token_text (access_token (auth s')))]))"

text \<open>
  Modelled from the spec: \<^verbatim>\<open>RateLimiter.call\<close> (\<^verbatim>\<open>asyncprawcore/rate_limit.py\<close>) is
  not among the sources. The spec says it invokes the header provider freshly on every
  call and then the transport function; its delay is opaque and has no part here.
\<close>

definition rate_limiter_call ::
  "(string list \<Rightarrow> 'j kwargs \<Rightarrow> state
      \<Rightarrow> 'j event list \<times> state \<times> ('j request_exception + 'j response))
    \<Rightarrow> (state \<Rightarrow> 'j event list \<times> state \<times> (string \<times> string) list)
    \<Rightarrow> string list \<Rightarrow> 'j kwargs \<Rightarrow> state
    \<Rightarrow> 'j event list \<times> state \<times> ('j request_exception + 'j response)" where
  "rate_limiter_call request_function set_header_cb args kwargs s =
     (let (ev1, s1, hdrs) = set_header_cb s;
          (ev2, s2, res) = request_function args (kwargs\<lparr>kw_headers := hdrs\<rparr>) s1
      in (ev1 @ ev2, s2, res))"

text \<open>
  \<^verbatim>\<open>Session._make_request\<close>. It returns the pair \<^verbatim>\<open>(response, None)\<close> or
  \<^verbatim>\<open>(None, original_exception)\<close>, or raises the \<^verbatim>\<open>RequestException\<close> again.
  (\<^verbatim>\<open>files\<close> is a parameter the source never passes on.)
\<close>

definition make_request ::
  "'j env \<Rightarrow> 'j call \<Rightarrow> int \<Rightarrow> state
    \<Rightarrow> 'j event list \<times> state \<times> ('j request_exception + 'j response option \<times> cause option)" where
  "make_request E c retries s =
     (let (ev, s', res) =
            rate_limiter_call (Requestor_request E) (set_header_callback E)
              [meth c, url c]
              \<lparr>allow_redirects = False, kw_data = data c, kw_json = json c,
               kw_params = params c, kw_headers = []\<rparr> s
      in case res of
           Inr response \<Rightarrow>
             (ev @ [Response (status response)
                      (headers_get (headers response) ''content-length'')],
              s', Inr (Some response, None))
         | Inl exception \<Rightarrow>
             if retries \<le> 1 \<or> original_exception exception \<notin> RETRY_EXCEPTIONS
             then (ev, s', Inl exception)
             else (ev, s', Inr (None, Some (original_exception exception))))"

text \<open>
  \<^verbatim>\<open>Session._request_with_retries\<close> and \<^verbatim>\<open>Session._do_retry\<close>, which call each other.
  A call returns the effects in order, the state it leaves and either the exception it
  raises (\<open>Inl\<close>) or the value it returns (\<open>Inr\<close>). Reading \<^verbatim>\<open>response.status\<close> when
  \<^verbatim>\<open>response\<close> is \<^verbatim>\<open>None\<close> raises \<^verbatim>\<open>AttributeError\<close>.
\<close>

function request_with_retries ::
  "'j env \<Rightarrow> 'j call \<Rightarrow> int \<Rightarrow> state \<Rightarrow> 'j event list \<times> state \<times> ('j error + 'j result)"
and do_retry ::
  "'j env \<Rightarrow> 'j call \<Rightarrow> 'j response option \<Rightarrow> int \<Rightarrow> cause option \<Rightarrow> state
    \<Rightarrow> 'j event list \<times> state \<times> ('j error + 'j result)"
where
  "request_with_retries E c retries s =
     (let (ev1, s1) = retry_sleep E retries s;
          (ev2, s2, res) = make_request E c retries s1;
          ev = Enter retries # ev1 @ Fetching # ev2
      in case res of
           Inl exception \<Rightarrow> (ev, s2, Inl (RequestError exception))
         | Inr (response, saved_exception) \<Rightarrow>
             let (ev3, s3, force) =
                   (case response of
                      None \<Rightarrow> ([], s2, False)
                    | Some r \<Rightarrow>
                        if status r = codes_unauthorized
                        then ([ClearToken], s2\<lparr>auth := clear_access_token (auth s2)\<rparr>,
                              has_refresh (auth s2))
                        else ([], s2, False))
             in if retries > 1 \<and>
                   (force \<or> (case response of None \<Rightarrow> True
                              | Some r \<Rightarrow> status r \<in> RETRY_STATUSES))
                then let (ev4, s4, out) = do_retry E c response retries saved_exception s3
                     in (ev @ ev3 @ ev4, s4, out)
                else (ev @ ev3, s3,
                  case response of
                    None \<Rightarrow> Inl AttributeError
                  | Some r \<Rightarrow>
                      (case STATUS_EXCEPTIONS (status r) of
                         Some exception_class \<Rightarrow> Inl (exception_class r)
                       | None \<Rightarrow>
                           if status r = codes_no_content then Inr NoContent
                           else if status r \<notin> SUCCESS_STATUSES
                           then Inl (AssertionError (status r))
                           else if headers_get (headers r) ''content-length'' = Some ''0''
                           then Inr EmptyString
                           else (case json_body r of
                                   Decoded v \<Rightarrow> Inr (Json v)
                                 | ValueError \<Rightarrow> Inl (BadJSON r)
                                 | OtherError m \<Rightarrow> Inl (Propagated m)))))"
| "do_retry E c response retries saved_exception s =
     (case (case saved_exception of
              Some exc \<Rightarrow> Some (Inl exc)
            | None \<Rightarrow> map_option (\<lambda>r. Inr (status r)) response) of
        None \<Rightarrow> ([], s, Inl AttributeError)
      | Some st \<Rightarrow>
          let (ev, s', out) = request_with_retries E c (retries - 1) s
          in (Retrying st # ev, s', out))"
  by pat_completeness auto
termination
  by (relation "measure (\<lambda>x. case x of
          Inl (E, c, retries, s) \<Rightarrow> 2 * nat retries
        | Inr (E, c, response, retries, saved, s) \<Rightarrow> 2 * nat (retries - 1) + 1)") auto

text \<open>
  \<^verbatim>\<open>Session.request\<close>. The caller's \<^verbatim>\<open>params\<close> is \<^verbatim>\<open>None\<close> or a dict, its
  \<^verbatim>\<open>data\<close> any \<open>body\<close>; dicts are passed by address in the store \<open>h\<close>.
  \<^verbatim>\<open>deepcopy(params) or {}\<close> is the copy unless the copy is empty (or \<^verbatim>\<open>params\<close> is
  \<^verbatim>\<open>None\<close>), and a new empty dict then. The function returns the coroutine of
  \<^verbatim>\<open>_request_with_retries\<close> with the default \<^verbatim>\<open>retries=3\<close>; the result here is what
  running that coroutine gives.
\<close>

definition request ::
  "'j env \<Rightarrow> heap \<Rightarrow> state \<Rightarrow> string \<Rightarrow> string \<Rightarrow> body \<Rightarrow> (string \<times> string) list option
    \<Rightarrow> 'j option \<Rightarrow> addr option
    \<Rightarrow> heap \<times> 'j event list \<times> state \<times> ('j error + 'j result)" where
  "request E h s method path data0 files0 json0 params0 =
     (let (h1, params1) =
            (case params0 of
               None \<Rightarrow> alloc h []
             | Some a \<Rightarrow>
                 let (h', a') = deepcopy h a
                 in if h' ! a' = [] then alloc h' [] else (h', a'));
          h2 = h1[params1 := dict_setitem ''raw_json'' (PyInt 1) (h1 ! params1)];
          (h3, data1) =
            (case data0 of
               DictData a \<Rightarrow>
                 let (h', a') = deepcopy h2 a;
                     h'' = h'[a' := dict_setitem ''api_type'' (PyStr ''json'') (h' ! a')]
                 in (h'', ItemsData (sort_key fst (h'' ! a')))
             | _ \<Rightarrow> (h2, data0));
          url1 = urljoin E (oauth_url E) path
      in (h3, request_with_retries E
                \<lparr>data = data1, files = files0, json = json0, meth = method,
                 params = params1, url = url1\<rparr> 3 s))"

section \<open>Reading a call's result\<close>

definition events_of :: "'j event list \<times> state \<times> ('j error + 'j result) \<Rightarrow> 'j event list" where
  "events_of x = fst x"

definition state_of :: "'j event list \<times> state \<times> ('j error + 'j result) \<Rightarrow> state" where
  "state_of x = fst (snd x)"

definition outcome_of ::
  "'j event list \<times> state \<times> ('j error + 'j result) \<Rightarrow> 'j error + 'j result" where
  "outcome_of x = snd (snd x)"

text \<open>The number of retries, of requests handed to the transport, of refreshes and of
  token invalidations among the effects of a call.\<close>

fun is_Retrying :: "'j event \<Rightarrow> bool" where
  "is_Retrying (Retrying st) = True"
| "is_Retrying e = False"

fun is_Dispatch :: "'j event \<Rightarrow> bool" where
  "is_Dispatch (Dispatch a k) = True"
| "is_Dispatch e = False"

definition retries_in :: "'j event list \<Rightarrow> nat" where
  "retries_in ev = length (filter is_Retrying ev)"

definition attempts_in :: "'j event list \<Rightarrow> nat" where
  "attempts_in ev = length (filter is_Dispatch ev)"

definition refreshes_in :: "'j event list \<Rightarrow> nat" where
  "refreshes_in ev = length (filter (\<lambda>e. e = Refresh) ev)"

definition clears_in :: "'j event list \<Rightarrow> nat" where
  "clears_in ev = length (filter (\<lambda>e. e = ClearToken) ev)"

text \<open>The values of \<^verbatim>\<open>retries\<close> with which \<^verbatim>\<open>_request_with_retries\<close> was entered.\<close>

fun counters :: "'j event list \<Rightarrow> int list" where
  "counters [] = []"
| "counters (Enter n # ev) = n # counters ev"
| "counters (e # ev) = counters ev"

text \<open>The sleeps (\<open>Some\<close> of the duration) and the requests (\<open>None\<close>) of a call, in order.\<close>

fun timeline :: "'j event list \<Rightarrow> real option list" where
  "timeline [] = []"
| "timeline (Sleep d # ev) = Some d # timeline ev"
| "timeline (Dispatch a k # ev) = None # timeline ev"
| "timeline (e # ev) = timeline ev"

text \<open>
  What the HTTP session does with the request of the attempt that starts in state \<open>s\<close>
  with \<^verbatim>\<open>retries\<close> attempts remaining: the request goes out after the backoff sleep,
  with the header the header callback builds.
\<close>

definition transport_outcome :: "'j env \<Rightarrow> 'j call \<Rightarrow> int \<Rightarrow> state \<Rightarrow> 'j outcome" where
  "transport_outcome E c retries s =
     (let (ev1, s1) = retry_sleep E retries s;
          (ev2, s2, hdrs) = set_header_callback E s1
      in http E (requests_made s2) [meth c, url c] (TIMEOUT E)
           \<lparr>allow_redirects = False, kw_data = data c, kw_json = json c,
            kw_params = params c, kw_headers = hdrs\<rparr>)"

text \<open>
  The value or exception the lines after the retry decision give for a response that is
  not retried (the status lookup, the 204 check, the assertion, the content length and
  the JSON decoding), as \<^verbatim>\<open>_request_with_retries\<close> has them.
\<close>

definition terminal_resolution :: "'j response \<Rightarrow> 'j error + 'j result" where
  "terminal_resolution r =
     (case STATUS_EXCEPTIONS (status r) of
        Some exception_class \<Rightarrow> Inl (exception_class r)
      | None \<Rightarrow>
          if status r = codes_no_content then Inr NoContent
          else if status r \<notin> SUCCESS_STATUSES then Inl (AssertionError (status r))
          else if headers_get (headers r) ''content-length'' = Some ''0'' then Inr EmptyString
          else (case json_body r of
                  Decoded v \<Rightarrow> Inr (Json v)
                | ValueError \<Rightarrow> Inl (BadJSON r)
                | OtherError m \<Rightarrow> Inl (Propagated m)))"

text \<open>
  The part of the retry condition that looks at a response: the flag \<^verbatim>\<open>do_retry\<close> (a
  401 from an Authorizer with \<^verbatim>\<open>refresh\<close>) or a status in \<^verbatim>\<open>RETRY_STATUSES\<close>.
\<close>

definition retry_wanted :: "'j response \<Rightarrow> state \<Rightarrow> bool" where
  "retry_wanted r s =
     (status r = codes_unauthorized \<and> has_refresh (auth s) \<or> status r \<in> RETRY_STATUSES)"

text \<open>The 401 handling: the effect and the state after a response has come in.\<close>

definition after_response :: "'j response \<Rightarrow> state \<Rightarrow> 'j event list \<times> state" where
  "after_response r s =
     (if status r = codes_unauthorized
      then ([ClearToken], s\<lparr>auth := clear_access_token (auth s)\<rparr>)
      else ([], s))"

subsection \<open>One attempt, observed\<close>

text \<open>
  The effects of the attempt that starts in state \<open>s\<close> with \<^verbatim>\<open>retries\<close> attempts
  remaining, up to the return of \<^verbatim>\<open>_make_request\<close>; the state then; and what
  \<^verbatim>\<open>_make_request\<close> gave: the exception it raised (\<open>Inl\<close>) or the pair
  \<^verbatim>\<open>(response, saved_exception)\<close> it returned.
\<close>

definition attempt_events :: "'j env \<Rightarrow> 'j call \<Rightarrow> int \<Rightarrow> state \<Rightarrow> 'j event list" where
  "attempt_events E c retries s =
     Enter retries # fst (retry_sleep E retries s) @ Fetching #
       fst (make_request E c retries (snd (retry_sleep E retries s)))"

definition attempt_state :: "'j env \<Rightarrow> 'j call \<Rightarrow> int \<Rightarrow> state \<Rightarrow> state" where
  "attempt_state E c retries s =
     fst (snd (make_request E c retries (snd (retry_sleep E retries s))))"

definition attempt_result ::
  "'j env \<Rightarrow> 'j call \<Rightarrow> int \<Rightarrow> state
    \<Rightarrow> 'j request_exception + 'j response option \<times> cause option" where
  "attempt_result E c retries s =
     snd (snd (make_request E c retries (snd (retry_sleep E retries s))))"

text \<open>Effects that happened before those of a call.\<close>

definition prepend ::
  "'j event list \<Rightarrow> 'j event list \<times> state \<times> ('j error + 'j result)
    \<Rightarrow> 'j event list \<times> state \<times> ('j error + 'j result)" where
  "prepend ev x = (ev @ fst x, snd x)"

subsection \<open>Requests on the wire\<close>

text \<open>The requests handed to the HTTP session, in order, with their arguments.\<close>

fun requests_sent :: "'j event list \<Rightarrow> (string list \<times> 'j kwargs) list" where
  "requests_sent [] = []"
| "requests_sent (Dispatch a k # ev) = (a, k) # requests_sent ev"
| "requests_sent (e # ev) = requests_sent ev"

text \<open>A request carries the arguments of the call, with redirects switched off.\<close>

definition carries_call :: "'j call \<Rightarrow> string list \<times> 'j kwargs \<Rightarrow> bool" where
  "carries_call c x =
     (fst x = [meth c, url c] \<and> kw_data (snd x) = data c \<and> kw_json (snd x) = json c \<and>
      kw_params (snd x) = params c \<and> \<not> allow_redirects (snd x))"

text \<open>
  What \<^verbatim>\<open>Session.request\<close> makes of \<^verbatim>\<open>data\<close> and \<^verbatim>\<open>params\<close>, read off the caller's
  store; \<open>in_store\<close> says that the dicts the caller passes exist in the store.
\<close>

definition canonical_data :: "heap \<Rightarrow> body \<Rightarrow> body" where
  "canonical_data h data0 =
     (case data0 of
        DictData a \<Rightarrow> ItemsData (sort_key fst (dict_setitem ''api_type'' (PyStr ''json'') (h ! a)))
      | _ \<Rightarrow> data0)"

definition canonical_params :: "heap \<Rightarrow> addr option \<Rightarrow> pydict" where
  "canonical_params h params0 =
     dict_setitem ''raw_json'' (PyInt 1) (case params0 of None \<Rightarrow> [] | Some q \<Rightarrow> h ! q)"

definition in_store :: "heap \<Rightarrow> body \<Rightarrow> addr option \<Rightarrow> bool" where
  "in_store h data0 params0 =
     ((case data0 of DictData a \<Rightarrow> a < length h | _ \<Rightarrow> True) \<and>
      (case params0 of None \<Rightarrow> True | Some q \<Rightarrow> q < length h))"

subsection \<open>Concrete instances\<close>

text \<open>
  A response with given status, headers and JSON outcome; an environment whose HTTP
  session answers its successive requests from a script; a call and a session state.
\<close>

definition response_with :: "int \<Rightarrow> (string \<times> string) list \<Rightarrow> 'j json_outcome \<Rightarrow> 'j response" where
  "response_with st hs jb = \<lparr>status = st, headers = hs, json_body = jb\<rparr>"

definition scripted :: "'j outcome list \<Rightarrow> 'j env" where
  "scripted script =
     \<lparr>http = (\<lambda>n a t k. if n < length script then script ! n
                        else Raises (OtherCause ''no more scripted outcomes'')),
      TIMEOUT = 16,
      rand = (\<lambda>n. 1 / 2),
      issued = (\<lambda>n. ''fresh-token''),
      oauth_url = ''https://oauth.reddit.com'',
      urljoin = (\<lambda>base path. base @ path)\<rparr>"

definition example_call :: "nat call" where
  "example_call =
     \<lparr>data = NoData, files = None, json = None, meth = ''GET'', params = 0,
      url = ''https://oauth.reddit.com/api/v1/me''\<rparr>"

definition session_with :: "string option \<Rightarrow> bool \<Rightarrow> state" where
  "session_with token refreshable =
     \<lparr>auth = \<lparr>access_token = token, has_refresh = refreshable\<rparr>,
      requests_made = 0, draws = 0, refreshes = 0\<rparr>"

definition three_failures :: "nat env" where
  "three_failures =
     scripted [Returns (response_with 503 [] ValueError),
               Returns (response_with 503 [] ValueError),
               Returns (response_with 503 [] ValueError)]"

definition connection_error_then_ok :: "nat env" where
  "connection_error_then_ok =
     scripted [Raises ConnectionError,
               Returns (response_with 200 [(''content-length'', ''2'')] (Decoded 7))]"


definition answers :: "nat response \<Rightarrow> nat env" where
  "answers r = scripted [Returns r, Returns r, Returns r]"

definition other_failure :: "nat env" where
  "other_failure = scripted [Raises (OtherCause ''InvalidURL'')]"


text \<open>The script of three 503 responses with the largest draw, \<open>1 - 2\<^sup>-\<^sup>5\<^sup>3\<close>.\<close>

definition largest_draw :: "nat env" where
  "largest_draw = three_failures\<lparr>rand := (\<lambda>n. 9007199254740991 / 9007199254740992)\<rparr>"

text \<open>A store with a body dict at address 0 and a params dict at address 1.\<close>

definition example_heap :: heap where
  "example_heap =
     [[(''title'', PyStr ''hello''), (''kind'', PyStr ''self''), (''api_type'', PyStr ''xml'')],
      [(''raw_json'', PyInt 0), (''limit'', PyInt 25)]]"

definition ok_response :: "nat response" where
  "ok_response = response_with 200 [(''content-length'', ''2'')] (Decoded 7)"

section \<open>Properties\<close>

lemmas codes_defs =
  codes_ok_def codes_created_def codes_no_content_def codes_found_def codes_bad_request_def
  codes_unauthorized_def codes_forbidden_def codes_not_found_def codes_conflict_def
  codes_request_entity_too_large_def codes_media_type_def
  codes_unavailable_for_legal_reasons_def codes_internal_server_error_def
  codes_bad_gateway_def codes_service_unavailable_def codes_gateway_timeout_def

declare request_with_retries.simps [simp del] do_retry.simps [simp del]

subsection \<open>One attempt\<close>

lemma set_header_callback_eq:
  "set_header_callback E s =
     (if \<not> is_valid (auth s) \<and> has_refresh (auth s)
      then ([Refresh], refresh E s,
            [(''Authorization'', ''bearer '' @ token_text (access_token (auth (refresh E s))))])
      else ([], s, [(''Authorization'', ''bearer '' @ token_text (access_token (auth s)))]))"
  by (simp add: set_header_callback_def)

lemma make_request_eq:
  "make_request E c retries s =
     (let (evh, sh, hdrs) = set_header_callback E s;
          args = [meth c, url c];
          kw = \<lparr>allow_redirects = False, kw_data = data c, kw_json = json c,
                kw_params = params c, kw_headers = hdrs\<rparr>;
          s' = sh\<lparr>requests_made := requests_made sh + 1\<rparr>
      in case http E (requests_made sh) args (TIMEOUT E) kw of
           Returns r \<Rightarrow>
             (evh @ [Dispatch args kw,
                     Response (status r) (headers_get (headers r) ''content-length'')],
              s', Inr (Some r, None))
         | Raises exc \<Rightarrow>
             if retries \<le> 1 \<or> exc \<notin> RETRY_EXCEPTIONS
             then (evh @ [Dispatch args kw], s', Inl (RequestException exc args kw))
             else (evh @ [Dispatch args kw], s', Inr (None, Some exc)))"
  by (simp add: make_request_def rate_limiter_call_def Requestor_request_def Let_def
      split: prod.splits outcome.splits)

lemma make_request_cases:
  obtains
    (returned) ev s' r where "make_request E c retries s = (ev, s', Inr (Some r, None))"
  | (swallowed) ev s' exc where "make_request E c retries s = (ev, s', Inr (None, Some exc))"
      "retries > 1" "exc \<in> RETRY_EXCEPTIONS"
  | (raised) ev s' exc a k where
      "make_request E c retries s = (ev, s', Inl (RequestException exc a k))"
      "retries \<le> 1 \<or> exc \<notin> RETRY_EXCEPTIONS"
proof -
  obtain evh sh hdrs where h: "set_header_callback E s = (evh, sh, hdrs)"
    by (cases "set_header_callback E s") auto
  let ?kw = "\<lparr>allow_redirects = False, kw_data = data c, kw_json = json c,
                kw_params = params c, kw_headers = hdrs\<rparr>"
  show ?thesis
  proof (cases "http E (requests_made sh) [meth c, url c] (TIMEOUT E) ?kw")
    case (Returns r)
    then show ?thesis using h returned by (simp add: make_request_eq Let_def)
  next
    case (Raises exc)
    show ?thesis
    proof (cases "retries \<le> 1 \<or> exc \<notin> RETRY_EXCEPTIONS")
      case True
      then show ?thesis using h Raises raised[of _ _ exc] by (simp add: make_request_eq Let_def)
    next
      case False
      then show ?thesis using h Raises swallowed[of _ _ exc] by (simp add: make_request_eq Let_def)
    qed
  qed
qed

lemma rwr_raised:
  assumes "make_request E c retries (snd (retry_sleep E retries s)) = (ev2, s2, Inl e)"
  shows "request_with_retries E c retries s =
           (Enter retries # fst (retry_sleep E retries s) @ Fetching # ev2, s2,
            Inl (RequestError e))"
  using assms
  by (subst request_with_retries.simps) (simp add: Let_def case_prod_beta)

lemma rwr_swallowed:
  assumes "make_request E c retries (snd (retry_sleep E retries s)) = (ev2, s2, Inr (None, Some exc))"
    and "retries > 1"
  shows "request_with_retries E c retries s =
           (case request_with_retries E c (retries - 1) s2 of
              (ev4, s4, out) \<Rightarrow>
                (Enter retries # fst (retry_sleep E retries s) @ Fetching # ev2
                   @ Retrying (Inl exc) # ev4, s4, out))"
  using assms
  by (subst request_with_retries.simps)
     (simp add: Let_def do_retry.simps case_prod_beta)

lemma rwr_returned:
  assumes "make_request E c retries (snd (retry_sleep E retries s)) = (ev2, s2, Inr (Some r, None))"
  shows "request_with_retries E c retries s =
           (if retries > 1 \<and> retry_wanted r s2
            then (case request_with_retries E c (retries - 1) (snd (after_response r s2)) of
                    (ev4, s4, out) \<Rightarrow>
                      (Enter retries # fst (retry_sleep E retries s) @ Fetching # ev2
                         @ fst (after_response r s2) @ Retrying (Inr (status r)) # ev4, s4, out))
            else (Enter retries # fst (retry_sleep E retries s) @ Fetching # ev2
                    @ fst (after_response r s2),
                  snd (after_response r s2), terminal_resolution r))"
  using assms
  by (subst request_with_retries.simps)
     (auto simp add: Let_def do_retry.simps retry_wanted_def after_response_def
        terminal_resolution_def case_prod_beta)

lemma rwr_retry:
  assumes "make_request E c retries (snd (retry_sleep E retries s)) = (ev2, s2, Inr (Some r, None))"
    and "1 < retries" and "retry_wanted r s2"
    and "request_with_retries E c (retries - 1) (snd (after_response r s2)) = (ev4, s4, out)"
  shows "request_with_retries E c retries s =
           (Enter retries # fst (retry_sleep E retries s) @ Fetching # ev2
              @ fst (after_response r s2) @ Retrying (Inr (status r)) # ev4, s4, out)"
  using assms(2-) by (simp add: rwr_returned[OF assms(1)])

lemma rwr_final:
  assumes "make_request E c retries (snd (retry_sleep E retries s)) = (ev2, s2, Inr (Some r, None))"
    and "\<not> (1 < retries \<and> retry_wanted r s2)"
  shows "request_with_retries E c retries s =
           (Enter retries # fst (retry_sleep E retries s) @ Fetching # ev2
              @ fst (after_response r s2),
            snd (after_response r s2), terminal_resolution r)"
  using assms(2) by (simp only: rwr_returned[OF assms(1)] if_False)

lemma rwr_induct [case_names step]:
  assumes "\<And>retries s. (\<And>s'. 1 < retries \<Longrightarrow> P (retries - 1) s') \<Longrightarrow> P retries s"
  shows "P (retries :: int) (s :: state)"
proof (induction "nat retries" arbitrary: retries s rule: less_induct)
  case less
  show ?case
  proof (rule assms)
    fix s' assume "1 < retries"
    then have "nat (retries - 1) < nat retries" by simp
    then show "P (retries - 1) s'" by (rule less)
  qed
qed

lemma counters_append [simp]: "counters (xs @ ys) = counters xs @ counters ys"
  by (induction xs rule: counters.induct) auto

lemma timeline_append [simp]: "timeline (xs @ ys) = timeline xs @ timeline ys"
  by (induction xs rule: timeline.induct) auto

lemma retries_in_simps [simp]:
  "retries_in [] = 0"
  "retries_in (e # ev) = (if is_Retrying e then 1 else 0) + retries_in ev"
  "retries_in (xs @ ys) = retries_in xs + retries_in ys"
  by (simp_all add: retries_in_def)

lemma attempts_in_simps [simp]:
  "attempts_in [] = 0"
  "attempts_in (e # ev) = (if is_Dispatch e then 1 else 0) + attempts_in ev"
  "attempts_in (xs @ ys) = attempts_in xs + attempts_in ys"
  by (simp_all add: attempts_in_def)

lemma refreshes_in_simps [simp]:
  "refreshes_in [] = 0"
  "refreshes_in (e # ev) = (if e = Refresh then 1 else 0) + refreshes_in ev"
  "refreshes_in (xs @ ys) = refreshes_in xs + refreshes_in ys"
  by (simp_all add: refreshes_in_def)

lemma clears_in_simps [simp]:
  "clears_in [] = 0"
  "clears_in (e # ev) = (if e = ClearToken then 1 else 0) + clears_in ev"
  "clears_in (xs @ ys) = clears_in xs + clears_in ys"
  by (simp_all add: clears_in_def)

lemma retry_sleep_events:
  "counters (fst (retry_sleep E retries s)) = []"
  "attempts_in (fst (retry_sleep E retries s)) = 0"
  "retries_in (fst (retry_sleep E retries s)) = 0"
  "clears_in (fst (retry_sleep E retries s)) = 0"
  "refreshes_in (fst (retry_sleep E retries s)) = 0"
  by (simp_all add: retry_sleep_def Let_def)

lemma make_request_events:
  assumes "make_request E c retries s = (ev, s', res)"
  shows "counters ev = []" "attempts_in ev = 1" "retries_in ev = 0" "clears_in ev = 0"
    "timeline ev = [None]"
    "refreshes_in ev = (if \<not> is_valid (auth s) \<and> has_refresh (auth s) then 1 else 0)"
  using assms
  by (auto simp add: make_request_eq set_header_callback_eq Let_def
      split: outcome.splits if_splits)

lemma after_response_events:
  "counters (fst (after_response r s)) = []"
  "attempts_in (fst (after_response r s)) = 0"
  "retries_in (fst (after_response r s)) = 0"
  "timeline (fst (after_response r s)) = []"
  "refreshes_in (fst (after_response r s)) = 0"
  by (simp_all add: after_response_def)

lemma rwr_counters:
  "\<exists>k. 1 \<le> k \<and> (k \<le> nat n \<or> k = 1) \<and>
       counters (events_of (request_with_retries E c n s)) = map (\<lambda>i. n - int i) [0..<k] \<and>
       attempts_in (events_of (request_with_retries E c n s)) = k \<and>
       retries_in (events_of (request_with_retries E c n s)) = k - 1"
proof (induction n s rule: rwr_induct)
  case (step n s)
  let ?s1 = "snd (retry_sleep E n s)"
  have next_attempt: "\<exists>k. 1 \<le> k \<and> k \<le> nat n \<and>
       n # counters ev4 = map (\<lambda>i. n - int i) [0..<k] \<and>
       Suc (attempts_in ev4) = k \<and> Suc (retries_in ev4) = k - 1"
    if "1 < n" and "request_with_retries E c (n - 1) s' = (ev4, s4, out)" for s' ev4 s4 out
  proof -
    from step[OF \<open>1 < n\<close>, of s'] that(2) obtain k where k: "1 \<le> k" "k \<le> nat (n - 1) \<or> k = 1"
      "counters ev4 = map (\<lambda>i. n - 1 - int i) [0..<k]" "attempts_in ev4 = k"
      "retries_in ev4 = k - 1"
      by (auto simp: events_of_def)
    have "n # counters ev4 = map (\<lambda>i. n - int i) [0..<Suc k]"
      by (simp only: map_upt_Suc k(3)) simp
    moreover have "Suc k \<le> nat n" using k(2) \<open>1 < n\<close> by auto
    ultimately show ?thesis using k by (intro exI[of _ "Suc k"]) auto
  qed
  show ?case
  proof (cases rule: make_request_cases[of E c n ?s1])
    case (returned ev s' r)
    show ?thesis
    proof (cases "1 < n \<and> retry_wanted r s'")
      case True
      obtain ev4 s4 out where r4:
        "request_with_retries E c (n - 1) (snd (after_response r s')) = (ev4, s4, out)"
        by (cases "request_with_retries E c (n - 1) (snd (after_response r s'))") auto
      from True have t: "1 < n" "retry_wanted r s'" by auto
      from next_attempt[OF t(1) r4] show ?thesis
        by (simp add: rwr_retry[OF returned t r4] events_of_def retry_sleep_events
            make_request_events[OF returned] after_response_events)
    next
      case False
      show ?thesis
        by (intro exI[of _ 1])
           (simp add: rwr_final[OF returned False] events_of_def retry_sleep_events
              make_request_events[OF returned] after_response_events)
    qed
  next
    case (swallowed ev s' exc)
    obtain ev4 s4 out where r4: "request_with_retries E c (n - 1) s' = (ev4, s4, out)"
      by (cases "request_with_retries E c (n - 1) s'") auto
    from next_attempt[OF swallowed(2) r4] show ?thesis
      by (simp add: rwr_swallowed[OF swallowed(1,2)] r4 events_of_def retry_sleep_events
          make_request_events[OF swallowed(1)])
  next
    case (raised ev s' exc a k)
    then show ?thesis
      by (intro exI[of _ 1])
         (simp add: rwr_raised[OF raised(1)] events_of_def retry_sleep_events
            make_request_events[OF raised(1)])
  qed
qed

subsection \<open>The status table and the steps of a call\<close>

lemma STATUS_EXCEPTIONS_eq:
  "(STATUS_EXCEPTIONS :: int \<rightharpoonup> ('j response \<Rightarrow> 'j error)) st =
     (if st = 302 then Some Redirect
      else if st = 400 then Some BadRequest
      else if st = 401 \<or> st = 403 then Some authorization_error_class
      else if st = 404 then Some NotFound
      else if st = 409 then Some Conflict
      else if st = 413 then Some TooLarge
      else if st = 415 then Some SpecialError
      else if st = 451 then Some UnavailableForLegalReasons
      else if st \<in> {500, 502, 503, 504, 520, 522} then Some ServerError
      else None)"
  by (simp add: STATUS_EXCEPTIONS_def codes_defs)

lemma STATUS_EXCEPTIONS_carries:
  assumes "STATUS_EXCEPTIONS st = Some f"
  shows "error_response (f r) = Some r"
  using assms
  by (auto simp add: STATUS_EXCEPTIONS_eq authorization_error_class_def split: if_splits)

lemma terminal_resolution_not_AttributeError:
  "terminal_resolution (r :: 'j response) \<noteq> Inl AttributeError"
proof (cases "STATUS_EXCEPTIONS (status r) :: ('j response \<Rightarrow> 'j error) option")
  case None
  then show ?thesis
    by (simp add: terminal_resolution_def split: json_outcome.splits)
next
  case (Some f)
  from STATUS_EXCEPTIONS_carries[OF Some, of r] have "f r \<noteq> AttributeError"
    by (cases "f r") auto
  with Some show ?thesis by (simp add: terminal_resolution_def)
qed

lemma rwr_no_AttributeError:
  "outcome_of (request_with_retries E c retries s) \<noteq> Inl AttributeError"
proof (induction retries s rule: rwr_induct)
  case (step n s)
  let ?s1 = "snd (retry_sleep E n s)"
  show ?case
  proof (cases rule: make_request_cases[of E c n ?s1])
    case (returned ev s' r)
    show ?thesis
    proof (cases "1 < n \<and> retry_wanted r s'")
      case True
      then have t: "1 < n" "retry_wanted r s'" by auto
      obtain ev4 s4 out where r4:
        "request_with_retries E c (n - 1) (snd (after_response r s')) = (ev4, s4, out)"
        by (cases "request_with_retries E c (n - 1) (snd (after_response r s'))") auto
      from step[OF t(1), of "snd (after_response r s')"] show ?thesis
        by (simp add: rwr_retry[OF returned t r4] r4 outcome_of_def)
    next
      case False
      show ?thesis
        by (simp add: rwr_final[OF returned False] outcome_of_def
            terminal_resolution_not_AttributeError)
    qed
  next
    case (swallowed ev s' exc)
    obtain ev4 s4 out where r4: "request_with_retries E c (n - 1) s' = (ev4, s4, out)"
      by (cases "request_with_retries E c (n - 1) s'") auto
    from step[OF swallowed(2), of s'] show ?thesis
      by (simp add: rwr_swallowed[OF swallowed(1,2)] r4 outcome_of_def)
  next
    case (raised ev s' exc a k)
    then show ?thesis
      by (simp add: rwr_raised[OF raised(1)] outcome_of_def)
  qed
qed

lemma make_request_absent:
  assumes "make_request E c retries s = (ev, s', Inr (None, saved))"
  shows "1 < retries \<and> (\<exists>exc. saved = Some exc \<and> exc \<in> RETRY_EXCEPTIONS)"
  using assms by (cases rule: make_request_cases[of E c retries s]) auto

lemma make_request_attempt:
  "make_request E c retries (snd (retry_sleep E retries s)) =
     (fst (make_request E c retries (snd (retry_sleep E retries s))),
      attempt_state E c retries s, attempt_result E c retries s)"
  by (simp add: attempt_state_def attempt_result_def)

lemma prepend_reads [simp]:
  "events_of (prepend ev x) = ev @ events_of x"
  "state_of (prepend ev x) = state_of x"
  "outcome_of (prepend ev x) = outcome_of x"
  by (simp_all add: prepend_def events_of_def state_of_def outcome_of_def)

lemma reads_tuple [simp]:
  "events_of (ev, s, out) = ev" "state_of (ev, s, out) = s" "outcome_of (ev, s, out) = out"
  by (simp_all add: events_of_def state_of_def outcome_of_def)

lemma attempt_raised:
  assumes "attempt_result E c retries s = Inl e"
  shows "request_with_retries E c retries s =
           (attempt_events E c retries s, attempt_state E c retries s, Inl (RequestError e))"
  using rwr_raised[of E c retries s _ _ e] make_request_attempt[of E c retries s] assms
  by (simp add: attempt_events_def)

lemma attempt_swallowed:
  assumes "attempt_result E c retries s = Inr (None, Some exc)" and "1 < retries"
  shows "request_with_retries E c retries s =
           prepend (attempt_events E c retries s @ [Retrying (Inl exc)])
             (request_with_retries E c (retries - 1) (attempt_state E c retries s))"
  using rwr_swallowed[of E c retries s _ _ exc] make_request_attempt[of E c retries s] assms
  by (simp add: attempt_events_def prepend_def case_prod_beta)

lemma attempt_retry:
  assumes "attempt_result E c retries s = Inr (Some r, None)" and "1 < retries"
    and "retry_wanted r (attempt_state E c retries s)"
  shows "request_with_retries E c retries s =
           prepend (attempt_events E c retries s
                      @ fst (after_response r (attempt_state E c retries s))
                      @ [Retrying (Inr (status r))])
             (request_with_retries E c (retries - 1)
                (snd (after_response r (attempt_state E c retries s))))"
  using rwr_returned[of E c retries s _ _ r] make_request_attempt[of E c retries s] assms
  by (simp add: attempt_events_def prepend_def case_prod_beta)

lemma attempt_final:
  assumes "attempt_result E c retries s = Inr (Some r, None)"
    and "\<not> (1 < retries \<and> retry_wanted r (attempt_state E c retries s))"
  shows "request_with_retries E c retries s =
           (attempt_events E c retries s @ fst (after_response r (attempt_state E c retries s)),
            snd (after_response r (attempt_state E c retries s)), terminal_resolution r)"
  using rwr_final[of E c retries s _ _ r] make_request_attempt[of E c retries s] assms
  by (simp add: attempt_events_def)

lemma attempt_result_cases:
  obtains
    (returned) r where "attempt_result E c retries s = Inr (Some r, None)"
  | (swallowed) exc where "attempt_result E c retries s = Inr (None, Some exc)"
      "1 < retries" "exc \<in> RETRY_EXCEPTIONS"
  | (raised) exc a k where "attempt_result E c retries s = Inl (RequestException exc a k)"
      "retries \<le> 1 \<or> exc \<notin> RETRY_EXCEPTIONS"
  by (cases rule: make_request_cases[of E c retries "snd (retry_sleep E retries s)"])
     (auto simp add: attempt_result_def)

lemma retry_sleep_state:
  "auth (snd (retry_sleep E retries s)) = auth s"
  "requests_made (snd (retry_sleep E retries s)) = requests_made s"
  "refreshes (snd (retry_sleep E retries s)) = refreshes s"
  "draws (snd (retry_sleep E retries s)) = draws s + (if retries < 3 then 1 else 0)"
  by (simp_all add: retry_sleep_def Let_def)

lemma make_request_state:
  "requests_made (fst (snd (make_request E c retries s))) = requests_made s + 1"
  "draws (fst (snd (make_request E c retries s))) = draws s"
  "has_refresh (auth (fst (snd (make_request E c retries s)))) = has_refresh (auth s)"
  "access_token (auth (fst (snd (make_request E c retries s)))) =
     (if \<not> is_valid (auth s) \<and> has_refresh (auth s) then Some (issued E (refreshes s))
      else access_token (auth s))"
  "refreshes (fst (snd (make_request E c retries s))) =
     refreshes s + (if \<not> is_valid (auth s) \<and> has_refresh (auth s) then 1 else 0)"
  by (simp_all add: make_request_eq set_header_callback_eq refresh_def Let_def
      split: outcome.splits)

lemma attempt_state_simps:
  "requests_made (attempt_state E c retries s) = requests_made s + 1"
  "draws (attempt_state E c retries s) = draws s + (if retries < 3 then 1 else 0)"
  "has_refresh (auth (attempt_state E c retries s)) = has_refresh (auth s)"
  "access_token (auth (attempt_state E c retries s)) =
     (if \<not> is_valid (auth s) \<and> has_refresh (auth s) then Some (issued E (refreshes s))
      else access_token (auth s))"
  "refreshes (attempt_state E c retries s) =
     refreshes s + (if \<not> is_valid (auth s) \<and> has_refresh (auth s) then 1 else 0)"
  by (simp_all add: attempt_state_def make_request_state retry_sleep_state)

lemma attempt_result_eq:
  "attempt_result E c retries s =
     (case transport_outcome E c retries s of
        Returns r \<Rightarrow> Inr (Some r, None)
      | Raises exc \<Rightarrow>
          if retries \<le> 1 \<or> exc \<notin> RETRY_EXCEPTIONS
          then Inl (RequestException exc [meth c, url c]
                 \<lparr>allow_redirects = False, kw_data = data c, kw_json = json c,
                  kw_params = params c,
                  kw_headers = snd (snd (set_header_callback E (snd (retry_sleep E retries s))))\<rparr>)
          else Inr (None, Some exc))"
  by (simp add: attempt_result_def transport_outcome_def make_request_eq Let_def
      case_prod_beta split: outcome.splits)

subsection \<open>Attempts and scripted runs\<close>

lemma attempt_events_counts:
  "retries_in (attempt_events E c retries s) = 0"
  "attempts_in (attempt_events E c retries s) = 1"
  "counters (attempt_events E c retries s) = [retries]"
  "clears_in (attempt_events E c retries s) = 0"
  using make_request_events[OF make_request_attempt[of E c retries s]]
  by (simp_all add: attempt_events_def retry_sleep_events)

lemma connection_error_attempt:
  "attempt_result connection_error_then_ok example_call 3 (session_with (Some ''token'') True)
     = Inr (None, Some ConnectionError)"
  by code_simp

lemma transport_outcome_at:
  assumes "http E (requests_made s) = (\<lambda>a t k. x)"
  shows "transport_outcome E c retries s = x"
  using assms
  by (simp add: transport_outcome_def case_prod_beta Let_def retry_sleep_state
      set_header_callback_eq refresh_def)

lemma attempt_result_returns:
  assumes "http E (requests_made s) = (\<lambda>a t k. Returns r)"
  shows "attempt_result E c retries s = Inr (Some r, None)"
  by (simp add: attempt_result_eq transport_outcome_at[OF assms])

lemma retry_wanted_attempt_state [simp]:
  "retry_wanted r (attempt_state E c retries s) = retry_wanted r s"
  by (simp add: retry_wanted_def attempt_state_simps)

lemma after_response_other:
  "status r \<noteq> codes_unauthorized \<Longrightarrow> after_response r s = ([], s)"
  by (simp add: after_response_def)

lemma retry_statuses_eq: "RETRY_STATUSES = {500, 502, 503, 504, 520, 522}"
  by (auto simp add: RETRY_STATUSES_def codes_defs)




lemma response_with_simps [simp]:
  "status (response_with st hs jb) = st"
  "headers (response_with st hs jb) = hs"
  "json_body (response_with st hs jb) = jb"
  by (simp_all add: response_with_def)

lemma scripted_http:
  "n < length script \<Longrightarrow> http (scripted script) n = (\<lambda>a t k. script ! n)"
  by (simp add: scripted_def)

lemma session_with_simps [simp]:
  "requests_made (session_with token refreshable) = 0"
  "draws (session_with token refreshable) = 0"
  "refreshes (session_with token refreshable) = 0"
  "access_token (auth (session_with token refreshable)) = token"
  "has_refresh (auth (session_with token refreshable)) = refreshable"
  by (simp_all add: session_with_def)

lemma terminal_resolution_success:
  assumes "status r = 200 \<or> status r = 201"
  shows "terminal_resolution r =
           (if headers_get (headers r) ''content-length'' = Some ''0'' then Inr EmptyString
            else case json_body r of
                   Decoded v \<Rightarrow> Inr (Json v)
                 | ValueError \<Rightarrow> Inl (BadJSON r)
                 | OtherError m \<Rightarrow> Inl (Propagated m))"
  using assms
  by (auto simp add: terminal_resolution_def STATUS_EXCEPTIONS_eq SUCCESS_STATUSES_def
      codes_defs)

lemma terminal_resolution_error:
  assumes "STATUS_EXCEPTIONS (status r) = Some f"
  shows "terminal_resolution r = Inl (f r)"
  using assms by (simp add: terminal_resolution_def)

subsection \<open>An absent response never reaches the terminal classification\<close>

text \<open>
  C10. \<^verbatim>\<open>_make_request\<close> gives an absent response (with the saved exception) only when
  more than one attempt remains, and such an attempt is always retried; so the status
  lookup, the 204 check and the assertion never read the status of an absent response:
  no call ends with the \<^verbatim>\<open>AttributeError\<close> that reading it would raise.
\<close>

theorem absent_response_is_retried:
  "(attempt_result E c retries s = Inr (None, saved) \<longrightarrow>
      1 < retries \<and> saved \<noteq> None \<and>
      0 < retries_in (events_of (request_with_retries E c retries s))) \<and>
   outcome_of (request_with_retries E c retries s) \<noteq> Inl AttributeError"
proof (intro conjI impI)
  assume a: "attempt_result E c retries s = Inr (None, saved)"
  then obtain exc where e: "saved = Some exc" "1 < retries"
    by (cases rule: attempt_result_cases[of E c retries s]) auto
  show "1 < retries" by (rule e)
  show "saved \<noteq> None" using e by simp
  show "0 < retries_in (events_of (request_with_retries E c retries s))"
    using a e by (simp add: attempt_swallowed)
next
  show "outcome_of (request_with_retries E c retries s) \<noteq> Inl AttributeError"
    by (rule rwr_no_AttributeError)
qed

theorem absent_response_is_retried_witness:
  "attempt_result connection_error_then_ok example_call 3 (session_with (Some ''token'') True)
     = Inr (None, Some ConnectionError) \<and>
   (1::int) < 3 \<and>
   0 < retries_in (events_of (request_with_retries connection_error_then_ok example_call 3
         (session_with (Some ''token'') True))) \<and>
   outcome_of (request_with_retries connection_error_then_ok example_call 3
         (session_with (Some ''token'') True)) \<noteq> Inl AttributeError"
  using connection_error_attempt
    absent_response_is_retried[of connection_error_then_ok example_call 3
      "session_with (Some ''token'') True" "Some ConnectionError"]
  by simp

subsection \<open>The retry decision\<close>




lemma answers_http:
  "http (answers r) (requests_made (session_with token refreshable)) = (\<lambda>a t k. Returns r)"
  by (simp add: answers_def scripted_http)

lemma not_retried_final:
  assumes a: "attempt_result E c retries s = Inr (Some r, saved)"
    and n: "retries_in (events_of (request_with_retries E c retries s)) = 0"
  shows "request_with_retries E c retries s =
           (attempt_events E c retries s @ fst (after_response r (attempt_state E c retries s)),
            snd (after_response r (attempt_state E c retries s)), terminal_resolution r)"
proof -
  from a have a': "attempt_result E c retries s = Inr (Some r, None)"
    by (cases rule: attempt_result_cases[of E c retries s]) auto
  have "\<not> (1 < retries \<and> retry_wanted r (attempt_state E c retries s))"
  proof
    assume "1 < retries \<and> retry_wanted r (attempt_state E c retries s)"
    then have "0 < retries_in (events_of (request_with_retries E c retries s))"
      by (simp add: attempt_retry[OF a'])
    with n show False by simp
  qed
  then show ?thesis by (rule attempt_final[OF a'])
qed

subsection \<open>Terminal resolution\<close>

text \<open>
  C4. When an attempt with response \<open>r\<close> is not retried: a status in
  \<^verbatim>\<open>STATUS_EXCEPTIONS\<close> raises the mapped exception, built from \<open>r\<close> and carrying it;
  status 204 returns \<^verbatim>\<open>None\<close>; status 200 or 201 with a content length of exactly
  \<^verbatim>\<open>"0"\<close> returns the empty string; otherwise status 200 or 201 returns the decoded
  JSON value when the body decodes, and raises \<^verbatim>\<open>BadJSON\<close> carrying \<open>r\<close> when decoding
  raises \<^verbatim>\<open>ValueError\<close>.
\<close>

theorem terminal_outcomes:
  "attempt_result E c retries s = Inr (Some r, saved) \<and>
   retries_in (events_of (request_with_retries E c retries s)) = 0 \<longrightarrow>
     (STATUS_EXCEPTIONS (status r) = Some f \<longrightarrow>
        outcome_of (request_with_retries E c retries s) = Inl (f r) \<and>
        error_response (f r) = Some r) \<and>
     (status r = 204 \<longrightarrow> outcome_of (request_with_retries E c retries s) = Inr NoContent) \<and>
     ((status r = 200 \<or> status r = 201) \<and>
      headers_get (headers r) ''content-length'' = Some ''0'' \<longrightarrow>
        outcome_of (request_with_retries E c retries s) = Inr EmptyString) \<and>
     ((status r = 200 \<or> status r = 201) \<and>
      headers_get (headers r) ''content-length'' \<noteq> Some ''0'' \<and> json_body r = Decoded v \<longrightarrow>
        outcome_of (request_with_retries E c retries s) = Inr (Json v)) \<and>
     ((status r = 200 \<or> status r = 201) \<and>
      headers_get (headers r) ''content-length'' \<noteq> Some ''0'' \<and> json_body r = ValueError \<longrightarrow>
        outcome_of (request_with_retries E c retries s) = Inl (BadJSON r) \<and>
        error_response (BadJSON r :: 'j error) = Some r)"
proof (intro impI)
  assume h: "attempt_result E c retries s = Inr (Some r, saved) \<and>
   retries_in (events_of (request_with_retries E c retries s)) = 0"
  then have out: "outcome_of (request_with_retries E c retries s) = terminal_resolution r"
    using not_retried_final[of E c retries s r saved] by simp
  have "STATUS_EXCEPTIONS (status r) = Some f \<longrightarrow> terminal_resolution r = Inl (f r) \<and>
      error_response (f r) = Some r"
    by (simp add: terminal_resolution_error STATUS_EXCEPTIONS_carries)
  moreover have "status r = 204 \<longrightarrow> terminal_resolution r = Inr NoContent"
    by (simp add: terminal_resolution_def STATUS_EXCEPTIONS_eq codes_defs)
  moreover have "(status r = 200 \<or> status r = 201) \<and>
      headers_get (headers r) ''content-length'' = Some ''0'' \<longrightarrow>
        terminal_resolution r = Inr EmptyString"
    by (simp add: terminal_resolution_success)
  moreover have "(status r = 200 \<or> status r = 201) \<and>
      headers_get (headers r) ''content-length'' \<noteq> Some ''0'' \<and> json_body r = Decoded v \<longrightarrow>
        terminal_resolution r = Inr (Json v)"
    by (simp add: terminal_resolution_success)
  moreover have "(status r = 200 \<or> status r = 201) \<and>
      headers_get (headers r) ''content-length'' \<noteq> Some ''0'' \<and> json_body r = ValueError \<longrightarrow>
        terminal_resolution r = Inl (BadJSON r)"
    by (simp add: terminal_resolution_success)
  ultimately show "(STATUS_EXCEPTIONS (status r) = Some f \<longrightarrow>
        outcome_of (request_with_retries E c retries s) = Inl (f r) \<and>
        error_response (f r) = Some r) \<and>
     (status r = 204 \<longrightarrow> outcome_of (request_with_retries E c retries s) = Inr NoContent) \<and>
     ((status r = 200 \<or> status r = 201) \<and>
      headers_get (headers r) ''content-length'' = Some ''0'' \<longrightarrow>
        outcome_of (request_with_retries E c retries s) = Inr EmptyString) \<and>
     ((status r = 200 \<or> status r = 201) \<and>
      headers_get (headers r) ''content-length'' \<noteq> Some ''0'' \<and> json_body r = Decoded v \<longrightarrow>
        outcome_of (request_with_retries E c retries s) = Inr (Json v)) \<and>
     ((status r = 200 \<or> status r = 201) \<and>
      headers_get (headers r) ''content-length'' \<noteq> Some ''0'' \<and> json_body r = ValueError \<longrightarrow>
        outcome_of (request_with_retries E c retries s) = Inl (BadJSON r) \<and>
        error_response (BadJSON r :: 'j error) = Some r)"
    unfolding out by simp
qed

lemma answers_not_retried:
  "retries_in (events_of (request_with_retries (answers (response_with 404 [] ValueError))
      example_call 3 (session_with (Some ''token'') True))) = 0"
  "retries_in (events_of (request_with_retries (answers (response_with 204 [] ValueError))
      example_call 3 (session_with (Some ''token'') True))) = 0"
  "retries_in (events_of (request_with_retries
      (answers (response_with 200 [(''content-length'', ''0'')] ValueError))
      example_call 3 (session_with (Some ''token'') True))) = 0"
  "retries_in (events_of (request_with_retries
      (answers (response_with 201 [(''content-length'', ''2'')] (Decoded 7)))
      example_call 3 (session_with (Some ''token'') True))) = 0"
  "retries_in (events_of (request_with_retries
      (answers (response_with 200 [(''content-length'', ''2'')] ValueError))
      example_call 3 (session_with (Some ''token'') True))) = 0"
  by code_simp+

theorem terminal_outcomes_witness:
  "outcome_of (request_with_retries (answers (response_with 404 [] ValueError))
      example_call 3 (session_with (Some ''token'') True))
     = Inl (NotFound (response_with 404 [] ValueError)) \<and>
   outcome_of (request_with_retries (answers (response_with 204 [] ValueError))
      example_call 3 (session_with (Some ''token'') True)) = Inr NoContent \<and>
   outcome_of (request_with_retries
      (answers (response_with 200 [(''content-length'', ''0'')] ValueError))
      example_call 3 (session_with (Some ''token'') True)) = Inr EmptyString \<and>
   outcome_of (request_with_retries
      (answers (response_with 201 [(''content-length'', ''2'')] (Decoded 7)))
      example_call 3 (session_with (Some ''token'') True)) = Inr (Json 7) \<and>
   outcome_of (request_with_retries
      (answers (response_with 200 [(''content-length'', ''2'')] ValueError))
      example_call 3 (session_with (Some ''token'') True))
     = Inl (BadJSON (response_with 200 [(''content-length'', ''2'')] ValueError))"
proof -
  let ?s = "session_with (Some ''token'') True"
  have a: "attempt_result (answers r) example_call 3 ?s = Inr (Some r, None)" for r
    by (rule attempt_result_returns[OF answers_http])
  have t: "(STATUS_EXCEPTIONS :: int \<rightharpoonup> (nat response \<Rightarrow> nat error)) 404 = Some NotFound"
    by (simp add: STATUS_EXCEPTIONS_eq)
  show ?thesis
    using answers_not_retried a t
      terminal_outcomes[of "answers (response_with 404 [] ValueError)" example_call 3 ?s
        "response_with 404 [] ValueError" None NotFound]
      terminal_outcomes[of "answers (response_with 204 [] ValueError)" example_call 3 ?s
        "response_with 204 [] ValueError" None]
      terminal_outcomes[of "answers (response_with 200 [(''content-length'', ''0'')] ValueError)"
        example_call 3 ?s "response_with 200 [(''content-length'', ''0'')] ValueError" None]
      terminal_outcomes[of "answers (response_with 201 [(''content-length'', ''2'')] (Decoded 7))"
        example_call 3 ?s "response_with 201 [(''content-length'', ''2'')] (Decoded 7)" None _ 7]
      terminal_outcomes[of "answers (response_with 200 [(''content-length'', ''2'')] ValueError)"
        example_call 3 ?s "response_with 200 [(''content-length'', ''2'')] ValueError" None]
    by (simp add: headers_get_def)
qed

subsection \<open>The status table\<close>

text \<open>
  C3, as amended. \<^verbatim>\<open>STATUS_EXCEPTIONS\<close> maps exactly 302 to \<^verbatim>\<open>Redirect\<close>, 400 to
  \<^verbatim>\<open>BadRequest\<close>, 401 and 403 to \<^verbatim>\<open>authorization_error_class\<close>, 404 to
  \<^verbatim>\<open>NotFound\<close>, 409 to \<^verbatim>\<open>Conflict\<close>, 413 to \<^verbatim>\<open>TooLarge\<close>, 415 to
  \<^verbatim>\<open>SpecialError\<close>, 451 to \<^verbatim>\<open>UnavailableForLegalReasons\<close> and 500, 502, 503, 504,
  520, 522 to \<^verbatim>\<open>ServerError\<close>, and no other status; every exception it builds carries
  the response; the success statuses are exactly 200 and 201. For 401 and 403 the
  exception of an attempt that is not retried is \<^verbatim>\<open>authorization_error_class(response)\<close>:
  it is built from the response alone, whatever the Authorizer can do.
\<close>

theorem status_error_table:
  "dom (STATUS_EXCEPTIONS :: int \<rightharpoonup> ('j response \<Rightarrow> 'j error)) =
     {302, 400, 401, 403, 404, 409, 413, 415, 451, 500, 502, 503, 504, 520, 522} \<and>
   (STATUS_EXCEPTIONS :: int \<rightharpoonup> ('j response \<Rightarrow> 'j error)) 302 = Some Redirect \<and>
   (STATUS_EXCEPTIONS :: int \<rightharpoonup> ('j response \<Rightarrow> 'j error)) 400 = Some BadRequest \<and>
   (STATUS_EXCEPTIONS :: int \<rightharpoonup> ('j response \<Rightarrow> 'j error)) 401 = Some authorization_error_class \<and>
   (STATUS_EXCEPTIONS :: int \<rightharpoonup> ('j response \<Rightarrow> 'j error)) 403 = Some authorization_error_class \<and>
   (STATUS_EXCEPTIONS :: int \<rightharpoonup> ('j response \<Rightarrow> 'j error)) 404 = Some NotFound \<and>
   (STATUS_EXCEPTIONS :: int \<rightharpoonup> ('j response \<Rightarrow> 'j error)) 409 = Some Conflict \<and>
   (STATUS_EXCEPTIONS :: int \<rightharpoonup> ('j response \<Rightarrow> 'j error)) 413 = Some TooLarge \<and>
   (STATUS_EXCEPTIONS :: int \<rightharpoonup> ('j response \<Rightarrow> 'j error)) 415 = Some SpecialError \<and>
   (STATUS_EXCEPTIONS :: int \<rightharpoonup> ('j response \<Rightarrow> 'j error)) 451 = Some UnavailableForLegalReasons \<and>
   (st \<in> {500, 502, 503, 504, 520, 522} \<longrightarrow>
      (STATUS_EXCEPTIONS :: int \<rightharpoonup> ('j response \<Rightarrow> 'j error)) st = Some ServerError) \<and>
   ((STATUS_EXCEPTIONS :: int \<rightharpoonup> ('j response \<Rightarrow> 'j error)) st = Some f \<longrightarrow>
      error_response (f r) = Some r) \<and>
   SUCCESS_STATUSES = {200, 201} \<and>
   (attempt_result E c retries s = Inr (Some r, saved) \<and>
    retries_in (events_of (request_with_retries E c retries s)) = 0 \<and>
    (status r = 401 \<or> status r = 403) \<longrightarrow>
      outcome_of (request_with_retries E c retries s) = Inl (authorization_error_class r) \<and>
      error_response (authorization_error_class r) = Some r)"
proof -
  have d: "dom (STATUS_EXCEPTIONS :: int \<rightharpoonup> ('j response \<Rightarrow> 'j error)) =
     {302, 400, 401, 403, 404, 409, 413, 415, 451, 500, 502, 503, 504, 520, 522}"
    by (auto simp add: dom_def STATUS_EXCEPTIONS_eq split: if_splits)
  have a: "outcome_of (request_with_retries E c retries s) = Inl (authorization_error_class r) \<and>
      error_response (authorization_error_class r) = Some r"
    if h: "attempt_result E c retries s = Inr (Some r, saved) \<and>
      retries_in (events_of (request_with_retries E c retries s)) = 0 \<and>
      (status r = 401 \<or> status r = 403)"
  proof -
    from h have "STATUS_EXCEPTIONS (status r) = Some (authorization_error_class :: 'j response \<Rightarrow> _)"
      by (auto simp add: STATUS_EXCEPTIONS_eq)
    then have "terminal_resolution r = Inl (authorization_error_class r)"
      by (rule terminal_resolution_error)
    with h not_retried_final[of E c retries s r saved] show ?thesis
      by (simp add: authorization_error_class_def)
  qed
  have s: "SUCCESS_STATUSES = {200, 201}"
    by (auto simp add: SUCCESS_STATUSES_def codes_defs)
  show ?thesis
    using d a s by (simp add: STATUS_EXCEPTIONS_eq STATUS_EXCEPTIONS_carries)
qed

lemma forbidden_runs:
  "retries_in (events_of (request_with_retries (answers (response_with 403 [] ValueError))
      example_call 3 (session_with (Some ''token'') True))) = 0"
  "retries_in (events_of (request_with_retries (answers (response_with 403 [] ValueError))
      example_call 3 (session_with (Some ''token'') False))) = 0"
  by code_simp+

theorem status_error_table_witness:
  "(503::int) \<in> {500, 502, 503, 504, 520, 522} \<and>
   (STATUS_EXCEPTIONS :: int \<rightharpoonup> (nat response \<Rightarrow> nat error)) 503 = Some ServerError \<and>
   error_response (ServerError (response_with 403 [] ValueError) :: nat error)
     = Some (response_with 403 [] ValueError) \<and>
   outcome_of (request_with_retries (answers (response_with 403 [] ValueError))
      example_call 3 (session_with (Some ''token'') True))
     = Inl (authorization_error_class (response_with 403 [] ValueError)) \<and>
   outcome_of (request_with_retries (answers (response_with 403 [] ValueError))
      example_call 3 (session_with (Some ''token'') False))
     = Inl (authorization_error_class (response_with 403 [] ValueError))"
proof -
  have a: "attempt_result (answers r) example_call 3 (session_with (Some ''token'') b)
      = Inr (Some r, None)" for r b
    by (rule attempt_result_returns[OF answers_http])
  show ?thesis
    using a forbidden_runs
      status_error_table[of 503 ServerError "response_with 403 [] ValueError"
        "answers (response_with 403 [] ValueError)" example_call 3
        "session_with (Some ''token'') True" None]
      status_error_table[of 503 ServerError "response_with 403 [] ValueError"
        "answers (response_with 403 [] ValueError)" example_call 3
        "session_with (Some ''token'') False" None]
    by simp
qed

text \<open>
  C3 as stated has the variant of the authorization error chosen by the Authorizer's
  capability. The same 403 response gives the same exception with and without
  \<^verbatim>\<open>refresh\<close>, and so does a 401 on the last attempt.
\<close>

theorem authorization_error_same_for_both_capabilities:
  "outcome_of (request_with_retries (answers (response_with 403 [] ValueError))
      example_call 3 (session_with (Some ''token'') True))
     = Inl (authorization_error_class (response_with 403 [] ValueError)) \<and>
   outcome_of (request_with_retries (answers (response_with 403 [] ValueError))
      example_call 3 (session_with (Some ''token'') False))
     = Inl (authorization_error_class (response_with 403 [] ValueError)) \<and>
   outcome_of (request_with_retries (answers (response_with 401 [] ValueError))
      example_call 1 (session_with (Some ''token'') True))
     = Inl (authorization_error_class (response_with 401 [] ValueError)) \<and>
   outcome_of (request_with_retries (answers (response_with 401 [] ValueError))
      example_call 1 (session_with (Some ''token'') False))
     = Inl (authorization_error_class (response_with 401 [] ValueError))"
  by code_simp

subsection \<open>Transport failures\<close>

lemma retry_exceptions_eq:
  "RETRY_EXCEPTIONS = {ChunkedEncodingError, ConnectionError, ReadTimeout}"
  by (simp add: RETRY_EXCEPTIONS_def)

lemma Requestor_request_raises:
  assumes "http E (requests_made s) args (TIMEOUT E) kw = Raises exc"
  shows "snd (snd (Requestor_request E args kw s)) = Inl (RequestException exc args kw)"
  using assms by (simp add: Requestor_request_def Let_def)

lemma transport_raises_attempt:
  assumes t: "transport_outcome E c retries s = Raises exc"
  shows "(0 < retries_in (events_of (request_with_retries E c retries s))) =
           (1 < retries \<and> exc \<in> RETRY_EXCEPTIONS)"
    and "\<not> (1 < retries \<and> exc \<in> RETRY_EXCEPTIONS) \<Longrightarrow>
           \<exists>k. request_with_retries E c retries s =
                  (attempt_events E c retries s, attempt_state E c retries s,
                   Inl (RequestError (RequestException exc [meth c, url c] k))) \<and>
               kw_data k = data c \<and> kw_params k = params c \<and> kw_json k = json c \<and>
               \<not> allow_redirects k"
proof -
  show "(0 < retries_in (events_of (request_with_retries E c retries s))) =
           (1 < retries \<and> exc \<in> RETRY_EXCEPTIONS)"
  proof (cases "1 < retries \<and> exc \<in> RETRY_EXCEPTIONS")
    case True
    then have "attempt_result E c retries s = Inr (None, Some exc)"
      by (auto simp add: attempt_result_eq t)
    with True show ?thesis by (simp add: attempt_swallowed)
  next
    case False
    then obtain k where "attempt_result E c retries s = Inl (RequestException exc [meth c, url c] k)"
      by (auto simp add: attempt_result_eq t)
    with False show ?thesis by (simp add: attempt_raised attempt_events_counts)
  qed
next
  assume "\<not> (1 < retries \<and> exc \<in> RETRY_EXCEPTIONS)"
  then have "attempt_result E c retries s =
      Inl (RequestException exc [meth c, url c]
             \<lparr>allow_redirects = False, kw_data = data c, kw_json = json c,
              kw_params = params c,
              kw_headers = snd (snd (set_header_callback E (snd (retry_sleep E retries s))))\<rparr>)"
    by (auto simp add: attempt_result_eq t)
  then show "\<exists>k. request_with_retries E c retries s =
                  (attempt_events E c retries s, attempt_state E c retries s,
                   Inl (RequestError (RequestException exc [meth c, url c] k))) \<and>
               kw_data k = data c \<and> kw_params k = params c \<and> kw_json k = json c \<and>
               \<not> allow_redirects k"
    by (simp add: attempt_raised)
qed

subsection \<open>Unauthorized responses\<close>










subsection \<open>The backoff sleep\<close>

lemma round_half_even_error: "\<bar>of_int (round_half_even x) - x\<bar> \<le> 1 / 2"
  unfolding round_half_even_def Let_def by (auto; linarith)

lemma round_half_even_ge:
  assumes "of_int n \<le> x" shows "n \<le> round_half_even x"
proof -
  from assms have "n \<le> \<lfloor>x\<rfloor>" by (simp add: le_floor_iff)
  then show ?thesis unfolding round_half_even_def Let_def by auto
qed

lemma round_half_even_below_half:
  assumes "x < of_int m + 1 / 2" shows "round_half_even x \<le> m"
proof -
  have "\<lfloor>x\<rfloor> \<le> m" using assms by (simp add: floor_le_iff)
  then consider "\<lfloor>x\<rfloor> = m" | "\<lfloor>x\<rfloor> + 1 \<le> m" by linarith
  then show ?thesis
  proof cases
    case 1
    with assms have "x - of_int \<lfloor>x\<rfloor> < 1 / 2" by simp
    with 1 show ?thesis unfolding round_half_even_def Let_def by simp
  next
    case 2
    then show ?thesis unfolding round_half_even_def Let_def by auto
  qed
qed

lemma round_half_even_from_half:
  assumes "odd m" and "of_int m + 1 / 2 \<le> x" shows "m + 1 \<le> round_half_even x"
proof -
  have "m \<le> \<lfloor>x\<rfloor>" using assms(2) by (simp add: le_floor_iff)
  then consider "\<lfloor>x\<rfloor> = m" | "m + 1 \<le> \<lfloor>x\<rfloor>" by linarith
  then show ?thesis
  proof cases
    case 1
    with assms(2) have "1 / 2 \<le> x - of_int \<lfloor>x\<rfloor>" by simp
    with 1 assms(1) show ?thesis unfolding round_half_even_def Let_def by auto
  next
    case 2
    then show ?thesis unfolding round_half_even_def Let_def by auto
  qed
qed

lemma binary64_add_zero [simp]: "binary64_add 0 b = b"
  by (simp add: binary64_add_def)

lemma binary64_add_two:
  assumes "0 \<le> u" and "u < 1"
  shows "2 \<le> binary64_add 2 (2 * u)"
    and "binary64_add 2 (2 * u) \<le> 4"
    and "\<bar>binary64_add 2 (2 * u) - (2 + 2 * u)\<bar> \<le> 1 / 2 ^ 52"
    and "(binary64_add 2 (2 * u) < 4) = (u < 1 - 1 / 2 ^ 53)"
proof -
  let ?x = "(2 + 2 * u) * 2 ^ 51"
  let ?r = "round_half_even ?x"
  have lo: "of_int (2 ^ 52 :: int) \<le> ?x" using assms by simp
  have hi: "?x < of_int (2 ^ 53 - 1 :: int) + 1 / 2 + 1 / 2" using assms by simp
  have r_lo: "2 ^ 52 \<le> ?r" by (rule round_half_even_ge[OF lo])
  have r_hi: "?r \<le> 2 ^ 53"
  proof -
    have "\<lfloor>?x\<rfloor> \<le> 2 ^ 53 - 1" using hi by (simp add: floor_le_iff)
    moreover have "?r \<le> \<lfloor>?x\<rfloor> + 1" unfolding round_half_even_def Let_def by auto
    ultimately show ?thesis by linarith
  qed
  show d: "2 \<le> binary64_add 2 (2 * u)" "binary64_add 2 (2 * u) \<le> 4"
  proof -
    have "(2::real) \<le> of_int ?r / 2 ^ 51"
      using r_lo by (simp add: le_divide_eq)
    moreover have "of_int ?r / 2 ^ 51 \<le> (4::real)"
      using r_hi by (simp add: divide_le_eq)
    ultimately show "2 \<le> binary64_add 2 (2 * u)" "binary64_add 2 (2 * u) \<le> 4"
      using assms by (auto simp add: binary64_add_def)
  qed
  show "\<bar>binary64_add 2 (2 * u) - (2 + 2 * u)\<bar> \<le> 1 / 2 ^ 52"
  proof (cases "u = 0")
    case True
    then show ?thesis by (simp add: binary64_add_def)
  next
    case False
    have "\<bar>of_int ?r - ?x\<bar> \<le> 1 / 2" by (rule round_half_even_error)
    then have "\<bar>of_int ?r / 2 ^ 51 - (2 + 2 * u)\<bar> \<le> 1 / 2 ^ 52"
      by (simp add: field_simps abs_le_iff)
    with False show ?thesis by (simp add: binary64_add_def)
  qed
  show "(binary64_add 2 (2 * u) < 4) = (u < 1 - 1 / 2 ^ 53)"
  proof (cases "u < 1 - 1 / 2 ^ 53")
    case True
    then have "?x < of_int (2 ^ 53 - 1 :: int) + 1 / 2" by (simp add: field_simps)
    then have "?r \<le> 2 ^ 53 - 1" by (rule round_half_even_below_half)
    then have "of_int ?r / 2 ^ 51 < (4::real)"
      by (simp add: divide_less_eq)
    moreover have "(2::real) < 4" by simp
    ultimately have "binary64_add 2 (2 * u) < 4" by (simp add: binary64_add_def)
    with True show ?thesis by simp
  next
    case False
    then have "of_int (2 ^ 53 - 1 :: int) + 1 / 2 \<le> ?x" by (simp add: field_simps)
    moreover have "odd (2 ^ 53 - 1 :: int)" by simp
    ultimately have "(2 ^ 53 - 1) + 1 \<le> ?r" by (rule round_half_even_from_half[rotated])
    then have "(4::real) \<le> of_int ?r / 2 ^ 51"
      by (simp add: le_divide_eq)
    moreover from False have "u \<noteq> 0" by auto
    ultimately have "\<not> binary64_add 2 (2 * u) < 4" by (simp add: binary64_add_def)
    with False show ?thesis by simp
  qed
qed

lemma retry_sleep_cases:
  "3 \<le> retries \<Longrightarrow> fst (retry_sleep E retries s) = []"
  "retries = 2 \<Longrightarrow> fst (retry_sleep E retries s) = [Sleep (2 * rand E (draws s))]"
  "retries < 3 \<Longrightarrow> retries \<noteq> 2 \<Longrightarrow>
     fst (retry_sleep E retries s) = [Sleep (binary64_add 2 (2 * rand E (draws s)))]"
  by (simp_all add: retry_sleep_def Let_def)

lemma timeline_attempt_events:
  "timeline (attempt_events E c retries s) = timeline (fst (retry_sleep E retries s)) @ [None]"
  using make_request_events(5)[OF make_request_attempt[of E c retries s]]
  by (simp add: attempt_events_def)

lemma events_start_with_attempt:
  "\<exists>rest. events_of (request_with_retries E c retries s) = attempt_events E c retries s @ rest"
proof (cases rule: attempt_result_cases[of E c retries s])
  case (returned r)
  show ?thesis
  proof (cases "1 < retries \<and> retry_wanted r (attempt_state E c retries s)")
    case True
    then show ?thesis using attempt_retry[OF returned] by simp
  next
    case False
    then show ?thesis using attempt_final[OF returned] by simp
  qed
next
  case (swallowed exc)
  then show ?thesis by (simp add: attempt_swallowed)
next
  case (raised exc a k)
  then show ?thesis by (simp add: attempt_raised)
qed

lemma connection_error_then_success:
  assumes h0: "http E (requests_made s) = (\<lambda>a t k. Raises ConnectionError)"
    and h1: "http E (requests_made s + 1) = (\<lambda>a t k. Returns r2)"
    and ok: "status r2 = 200" and js: "json_body r2 = Decoded v"
  shows "timeline (events_of (request_with_retries E c 3 s)) =
           [None, Some (2 * rand E (draws s)), None]"
    and "retries_in (events_of (request_with_retries E c 3 s)) = 1"
    and "outcome_of (request_with_retries E c 3 s) =
           Inr (if headers_get (headers r2) ''content-length'' = Some ''0''
                then EmptyString else Json v)"
proof -
  let ?st = "attempt_state E c 3 s"
  have a1: "attempt_result E c 3 s = Inr (None, Some ConnectionError)"
    by (simp add: attempt_result_eq transport_outcome_at[OF h0] retry_exceptions_eq)
  have e1: "request_with_retries E c 3 s =
      prepend (attempt_events E c 3 s @ [Retrying (Inl ConnectionError)])
        (request_with_retries E c 2 ?st)"
    using attempt_swallowed[OF a1] by simp
  have a2: "attempt_result E c 2 ?st = Inr (Some r2, None)"
    using h1 by (intro attempt_result_returns) (simp add: attempt_state_simps)
  have nw: "\<not> (1 < (2::int) \<and> retry_wanted r2 (attempt_state E c 2 ?st))"
    using ok by (simp add: retry_wanted_def retry_statuses_eq codes_defs)
  have e2: "request_with_retries E c 2 ?st =
      (attempt_events E c 2 ?st, attempt_state E c 2 ?st,
       Inr (if headers_get (headers r2) ''content-length'' = Some ''0''
            then EmptyString else Json v))"
    using attempt_final[OF a2 nw] ok js
    by (simp add: after_response_other codes_defs terminal_resolution_success)
  show "timeline (events_of (request_with_retries E c 3 s)) =
           [None, Some (2 * rand E (draws s)), None]"
    by (simp add: e1 e2 timeline_attempt_events retry_sleep_cases attempt_state_simps)
  show "retries_in (events_of (request_with_retries E c 3 s)) = 1"
    by (simp add: e1 e2 attempt_events_counts)
  show "outcome_of (request_with_retries E c 3 s) =
           Inr (if headers_get (headers r2) ''content-length'' = Some ''0''
                then EmptyString else Json v)"
    by (simp add: e1 e2)
qed

text \<open>
  C5, as amended. The sleep of an attempt comes before its request. With 2 attempts
  remaining the duration is \<open>2u\<close>, in \<open>[0, 2)\<close>; with 1 attempt remaining, the final
  attempt, it is the binary64 sum of 2 and \<open>2u\<close>, in \<open>[2, 4]\<close>, within \<open>2\<^sup>-\<^sup>5\<^sup>2\<close> of
  \<open>2 + 2u\<close> and below 4 exactly when \<open>u < 1 - 2\<^sup>-\<^sup>5\<^sup>3\<close>, where \<open>u\<close> in \<open>[0, 1)\<close> is the
  draw of \<^verbatim>\<open>random.random()\<close>; with 3 or more attempts remaining, the first attempt of
  the default budget, there is no sleep. After a connection error on the first attempt of a
  call with budget 3 and a 200 on the second, the call makes one retry, sleeps a duration
  in \<open>[0, 2)\<close> between the two requests and succeeds.
\<close>

theorem backoff_before_attempt:
  "(0 \<le> rand E (draws s) \<and> rand E (draws s) < 1 \<longrightarrow>
      (3 \<le> retries \<longrightarrow> fst (retry_sleep E retries s) = []) \<and>
      (retries = 2 \<longrightarrow>
         (\<exists>d. fst (retry_sleep E retries s) = [Sleep d] \<and> d = 2 * rand E (draws s) \<and>
              0 \<le> d \<and> d < 2)) \<and>
      (retries = 1 \<longrightarrow>
         (\<exists>d. fst (retry_sleep E retries s) = [Sleep d] \<and>
              d = binary64_add 2 (2 * rand E (draws s)) \<and>
              2 \<le> d \<and> d \<le> 4 \<and> \<bar>d - (2 + 2 * rand E (draws s))\<bar> \<le> 1 / 2 ^ 52 \<and>
              (d < 4) = (rand E (draws s) < 1 - 1 / 2 ^ 53)))) \<and>
   timeline (attempt_events E c retries s) = timeline (fst (retry_sleep E retries s)) @ [None] \<and>
   (\<exists>rest. events_of (request_with_retries E c retries s)
            = attempt_events E c retries s @ rest) \<and>
   (0 \<le> rand E (draws s) \<and> rand E (draws s) < 1 \<and>
    http E (requests_made s) = (\<lambda>a t k. Raises ConnectionError) \<and>
    http E (requests_made s + 1) = (\<lambda>a t k. Returns r2) \<and>
    status r2 = 200 \<and> json_body r2 = Decoded v \<longrightarrow>
      (\<exists>d. timeline (events_of (request_with_retries E c 3 s)) = [None, Some d, None] \<and>
           0 \<le> d \<and> d < 2) \<and>
      retries_in (events_of (request_with_retries E c 3 s)) = 1 \<and>
      outcome_of (request_with_retries E c 3 s) =
        Inr (if headers_get (headers r2) ''content-length'' = Some ''0''
             then EmptyString else Json v))"
proof (intro conjI impI)
  assume u: "0 \<le> rand E (draws s) \<and> rand E (draws s) < 1"
  {
    assume "3 \<le> retries"
    then show "fst (retry_sleep E retries s) = []" by (rule retry_sleep_cases)
  }
  {
    assume "retries = 2"
    then show "\<exists>d. fst (retry_sleep E retries s) = [Sleep d] \<and> d = 2 * rand E (draws s) \<and>
              0 \<le> d \<and> d < 2"
      using u by (simp add: retry_sleep_cases)
  }
  {
    assume "retries = 1"
    then show "\<exists>d. fst (retry_sleep E retries s) = [Sleep d] \<and>
              d = binary64_add 2 (2 * rand E (draws s)) \<and>
              2 \<le> d \<and> d \<le> 4 \<and> \<bar>d - (2 + 2 * rand E (draws s))\<bar> \<le> 1 / 2 ^ 52 \<and>
              (d < 4) = (rand E (draws s) < 1 - 1 / 2 ^ 53)"
      using u binary64_add_two[of "rand E (draws s)"]
      by (simp only: retry_sleep_cases simp_thms) blast
  }
next
  show "timeline (attempt_events E c retries s) = timeline (fst (retry_sleep E retries s)) @ [None]"
    by (rule timeline_attempt_events)
  show "\<exists>rest. events_of (request_with_retries E c retries s)
            = attempt_events E c retries s @ rest"
    by (rule events_start_with_attempt)
next
  assume h: "0 \<le> rand E (draws s) \<and> rand E (draws s) < 1 \<and>
    http E (requests_made s) = (\<lambda>a t k. Raises ConnectionError) \<and>
    http E (requests_made s + 1) = (\<lambda>a t k. Returns r2) \<and>
    status r2 = 200 \<and> json_body r2 = Decoded v"
  then have u: "0 \<le> rand E (draws s)" "rand E (draws s) < 1"
    and h0: "http E (requests_made s) = (\<lambda>a t k. Raises ConnectionError)"
    and h1: "http E (requests_made s + 1) = (\<lambda>a t k. Returns r2)"
    and ok: "status r2 = 200" and js: "json_body r2 = Decoded v"
    by blast+
  note run = connection_error_then_success[OF h0 h1 ok js, of c]
  show "\<exists>d. timeline (events_of (request_with_retries E c 3 s)) = [None, Some d, None] \<and>
           0 \<le> d \<and> d < 2"
    using run(1) u by simp
  show "retries_in (events_of (request_with_retries E c 3 s)) = 1" by (rule run(2))
  show "outcome_of (request_with_retries E c 3 s) =
        Inr (if headers_get (headers r2) ''content-length'' = Some ''0''
             then EmptyString else Json v)"
    by (rule run(3))
qed

lemma scripted_rand [simp]: "rand (scripted script) n = 1 / 2"
  by (simp add: scripted_def)

theorem backoff_before_attempt_witness:
  "0 \<le> rand connection_error_then_ok (draws (session_with (Some ''token'') True)) \<and>
   rand connection_error_then_ok (draws (session_with (Some ''token'') True)) < 1 \<and>
   fst (retry_sleep connection_error_then_ok 3 (session_with (Some ''token'') True)) = [] \<and>
   (\<exists>d. fst (retry_sleep connection_error_then_ok 2 (session_with (Some ''token'') True))
          = [Sleep d] \<and> 0 \<le> d \<and> d < 2) \<and>
   (\<exists>d. fst (retry_sleep connection_error_then_ok 1 (session_with (Some ''token'') True))
          = [Sleep d] \<and> 2 \<le> d \<and> d < 4) \<and>
   fst (retry_sleep largest_draw 1 (session_with (Some ''token'') True)) = [Sleep 4] \<and>
   (\<exists>d. timeline (events_of (request_with_retries connection_error_then_ok example_call 3
            (session_with (Some ''token'') True))) = [None, Some d, None] \<and> 0 \<le> d \<and> d < 2) \<and>
   retries_in (events_of (request_with_retries connection_error_then_ok example_call 3
         (session_with (Some ''token'') True))) = 1 \<and>
   outcome_of (request_with_retries connection_error_then_ok example_call 3
         (session_with (Some ''token'') True)) = Inr (Json 7)"
proof -
  let ?s = "session_with (Some ''token'') True"
  let ?E = "connection_error_then_ok"
  let ?ok = "response_with 200 [(''content-length'', ''2'')] (Decoded 7) :: nat response"
  have u: "0 \<le> rand ?E (draws ?s)" "rand ?E (draws ?s) < 1"
    by (simp_all add: connection_error_then_ok_def)
  have h0: "http ?E (requests_made ?s) = (\<lambda>a t k. Raises ConnectionError)"
    and h1: "http ?E (requests_made ?s + 1) = (\<lambda>a t k. Returns ?ok)"
    by (simp_all add: connection_error_then_ok_def scripted_http)
  note A = backoff_before_attempt[where E = "?E" and s = "?s" and c = example_call
      and retries = 3 and ?r2.0 = "?ok" and v = 7]
  note B = backoff_before_attempt[where E = "?E" and s = "?s" and c = example_call
      and retries = 2 and ?r2.0 = "?ok" and v = 7]
  note C = backoff_before_attempt[where E = "?E" and s = "?s" and c = example_call
      and retries = 1 and ?r2.0 = "?ok" and v = 7]
  from A u h0 h1 have a:
    "fst (retry_sleep ?E 3 ?s) = []"
    "\<exists>d. timeline (events_of (request_with_retries ?E example_call 3 ?s))
           = [None, Some d, None] \<and> 0 \<le> d \<and> d < 2"
    "retries_in (events_of (request_with_retries ?E example_call 3 ?s)) = 1"
    "outcome_of (request_with_retries ?E example_call 3 ?s) = Inr (Json 7)"
    by (simp_all add: headers_get_def)
  from B u have b: "\<exists>d. fst (retry_sleep ?E 2 ?s) = [Sleep d] \<and> 0 \<le> d \<and> d < 2"
    by simp
  have half: "rand ?E (draws ?s) = 1 / 2"
    by (simp add: connection_error_then_ok_def)
  from C u obtain d where d:
    "fst (retry_sleep ?E 1 ?s) = [Sleep d]" "2 \<le> d"
    "(d < 4) = (rand ?E (draws ?s) < 1 - 1 / 2 ^ 53)"
    by blast
  from d(3) have "d < 4" unfolding half by simp
  with d have c: "\<exists>d. fst (retry_sleep ?E 1 ?s) = [Sleep d] \<and> 2 \<le> d \<and> d < 4"
    by blast
  have largest: "rand largest_draw (draws ?s) = 9007199254740991 / 9007199254740992"
    by (simp add: largest_draw_def)
  have v: "0 \<le> rand largest_draw (draws ?s)" "rand largest_draw (draws ?s) < 1"
    unfolding largest by simp_all
  note D = backoff_before_attempt[where E = largest_draw and s = "?s" and c = example_call
      and retries = 1 and ?r2.0 = "?ok" and v = 7]
  from D v obtain e where e:
    "fst (retry_sleep largest_draw 1 ?s) = [Sleep e]" "e \<le> 4"
    "(e < 4) = (rand largest_draw (draws ?s) < 1 - 1 / 2 ^ 53)"
    by blast
  from e(3) have "\<not> e < 4" unfolding largest by simp
  with e(2) have "e = 4" by simp
  with e(1) have l: "fst (retry_sleep largest_draw 1 ?s) = [Sleep 4]" by simp
  show ?thesis
    using u a b c l by (intro conjI) assumption+
qed

text \<open>
  C5 as stated has no sleep on the final attempt. With budget 3, three 503 responses and
  the draw \<open>1/2\<close>: no sleep before the first request, 1 second before the second, 3
  seconds before the third and final one. With the largest draw, \<open>1 - 2\<^sup>-\<^sup>5\<^sup>3\<close>, the sleep
  before the final attempt is the binary64 sum of 2 and \<open>2 - 2\<^sup>-\<^sup>5\<^sup>2\<close>, which is 4.
\<close>

theorem final_attempt_sleeps:
  "timeline (events_of (request_with_retries three_failures example_call 3
      (session_with (Some ''token'') True))) = [None, Some 1, None, Some 3, None] \<and>
   outcome_of (request_with_retries three_failures example_call 3
      (session_with (Some ''token'') True)) = Inl (ServerError (response_with 503 [] ValueError)) \<and>
   fst (retry_sleep three_failures 1 (session_with (Some ''token'') True)) = [Sleep 3] \<and>
   fst (retry_sleep three_failures 3 (session_with (Some ''token'') True)) = [] \<and>
   fst (retry_sleep largest_draw 1 (session_with (Some ''token'') True)) = [Sleep 4] \<and>
   timeline (events_of (request_with_retries largest_draw example_call 3
      (session_with (Some ''token'') True)))
     = [None, Some (9007199254740991 / 4503599627370496), None, Some 4, None]"
  by code_simp

subsection \<open>Canonical body and query parameters\<close>

lemma requests_sent_append [simp]:
  "requests_sent (xs @ ys) = requests_sent xs @ requests_sent ys"
  by (induction xs rule: requests_sent.induct) auto

lemma requests_sent_make_request:
  "requests_sent (fst (make_request E c retries s)) =
     [([meth c, url c],
       \<lparr>allow_redirects = False, kw_data = data c, kw_json = json c, kw_params = params c,
        kw_headers = snd (snd (set_header_callback E s))\<rparr>)]"
  by (simp add: make_request_eq set_header_callback_eq Let_def split: outcome.splits)

lemma requests_sent_retry_sleep [simp]:
  "requests_sent (fst (retry_sleep E retries s)) = []"
  by (simp add: retry_sleep_def Let_def)

lemma requests_sent_after_response [simp]:
  "requests_sent (fst (after_response r s)) = []"
  by (simp add: after_response_def)

lemma requests_sent_attempt:
  "requests_sent (attempt_events E c retries s) =
     [([meth c, url c],
       \<lparr>allow_redirects = False, kw_data = data c, kw_json = json c, kw_params = params c,
        kw_headers = snd (snd (set_header_callback E (snd (retry_sleep E retries s))))\<rparr>)]"
  by (simp add: attempt_events_def requests_sent_make_request)

lemma requests_sent_carry_call:
  "requests_sent (events_of (request_with_retries E c retries s)) \<noteq> [] \<and>
   list_all (carries_call c) (requests_sent (events_of (request_with_retries E c retries s)))"
proof (induction retries s rule: rwr_induct)
  case (step n s)
  have att: "list_all (carries_call c) (requests_sent (attempt_events E c n s))"
    by (simp add: requests_sent_attempt carries_call_def)
  show ?case
  proof (cases rule: attempt_result_cases[of E c n s])
    case (returned r)
    show ?thesis
    proof (cases "1 < n \<and> retry_wanted r (attempt_state E c n s)")
      case True
      then have t: "1 < n" "retry_wanted r (attempt_state E c n s)" by auto
      from step[OF t(1)] att show ?thesis
        by (simp add: attempt_retry[OF returned t] requests_sent_attempt)
    next
      case False
      from att show ?thesis
        by (simp add: attempt_final[OF returned False] requests_sent_attempt)
    qed
  next
    case (swallowed exc)
    from step[OF swallowed(2)] att show ?thesis
      by (simp add: attempt_swallowed[OF swallowed(1,2)] requests_sent_attempt)
  next
    case (raised exc a k)
    from att show ?thesis
      by (simp add: attempt_raised[OF raised(1)] requests_sent_attempt)
  qed
qed

lemma map_of_dict_setitem: "map_of (dict_setitem k v d) = (map_of d)(k \<mapsto> v)"
  by (induction d) (auto simp add: fun_eq_iff)

lemma keys_dict_setitem:
  "fst ` set (dict_setitem k v d) = insert k (fst ` set d)"
proof -
  have "fst ` set (dict_setitem k v d) = dom (map_of (dict_setitem k v d))"
    by (simp add: dom_map_of_conv_image_fst)
  also have "\<dots> = insert k (dom (map_of d))"
    by (simp add: map_of_dict_setitem)
  finally show ?thesis by (simp add: dom_map_of_conv_image_fst)
qed

lemma distinct_dict_setitem:
  "distinct (map fst d) \<Longrightarrow> distinct (map fst (dict_setitem k v d))"
  by (induction d) (auto simp add: keys_dict_setitem)

lemma distinct_map_insort_key:
  "distinct (map f (insort_key f x xs)) = (f x \<notin> f ` set xs \<and> distinct (map f xs))"
  by (induction xs) (auto simp add: set_insort_key)

lemma distinct_map_sort_key:
  "distinct (map f (sort_key f xs)) = distinct (map f xs)"
  by (induction xs) (auto simp add: distinct_map_insort_key)

lemma map_of_sort_key:
  assumes "distinct (map fst d)"
  shows "map_of (sort_key fst d) = map_of d"
  using assms by (subst map_of_inject_set) (simp_all add: distinct_map_sort_key)

lemma request_canonical:
  assumes "in_store h data0 params0"
  shows "\<exists>h' p. request E h s m path data0 f j params0 =
           (h', request_with_retries E
                  \<lparr>data = canonical_data h data0, files = f, json = j, meth = m,
                   params = p, url = urljoin E (oauth_url E) path\<rparr> 3 s) \<and>
         length h \<le> p \<and> p < length h' \<and> h' ! p = canonical_params h params0 \<and>
         (\<forall>b < length h. h' ! b = h ! b)"
proof -
  obtain h1 p where hp: "(case params0 of
               None \<Rightarrow> alloc h []
             | Some a \<Rightarrow>
                 let (h', a') = deepcopy h a
                 in if h' ! a' = [] then alloc h' [] else (h', a')) = (h1, p)"
    by (cases "(case params0 of
               None \<Rightarrow> alloc h []
             | Some a \<Rightarrow>
                 let (h', a') = deepcopy h a
                 in if h' ! a' = [] then alloc h' [] else (h', a'))") auto
  have p: "length h \<le> p" "p < length h1"
    "h1 ! p = (case params0 of None \<Rightarrow> [] | Some q \<Rightarrow> h ! q)"
    "\<forall>b < length h. h1 ! b = h ! b"
    using hp assms
    by (auto simp add: alloc_def deepcopy_def in_store_def nth_append
        split: option.splits if_splits)
  let ?h2 = "h1[p := dict_setitem ''raw_json'' (PyInt 1) (h1 ! p)]"
  have h2: "?h2 ! p = canonical_params h params0" "\<forall>b < length h. ?h2 ! b = h ! b"
    "length ?h2 = length h1"
    using p by (auto simp add: canonical_params_def)
  obtain h3 d1 where hd: "(case data0 of
               DictData a \<Rightarrow>
                 let (h', a') = deepcopy ?h2 a;
                     h'' = h'[a' := dict_setitem ''api_type'' (PyStr ''json'') (h' ! a')]
                 in (h'', ItemsData (sort_key fst (h'' ! a')))
             | _ \<Rightarrow> (?h2, data0)) = (h3, d1)"
    by (cases "(case data0 of
               DictData a \<Rightarrow>
                 let (h', a') = deepcopy ?h2 a;
                     h'' = h'[a' := dict_setitem ''api_type'' (PyStr ''json'') (h' ! a')]
                 in (h'', ItemsData (sort_key fst (h'' ! a')))
             | _ \<Rightarrow> (?h2, data0))") auto
  have d: "d1 = canonical_data h data0" "h3 ! p = canonical_params h params0"
    "\<forall>b < length h. h3 ! b = h ! b" "p < length h3"
    using hd assms h2 p(1,2)
    by (auto simp add: alloc_def deepcopy_def in_store_def canonical_data_def nth_append
        split: body.splits)
  have "request E h s m path data0 f j params0 =
           (h3, request_with_retries E
                  \<lparr>data = d1, files = f, json = j, meth = m,
                   params = p, url = urljoin E (oauth_url E) path\<rparr> 3 s)"
    by (simp add: request_def hp hd Let_def)
  with d p(1) show ?thesis by blast
qed

lemma dict_setitem_member: "(k, v) \<in> set (dict_setitem k v d)"
  by (induction d) auto

lemma example_in_store:
  "in_store example_heap (DictData 0) (Some 1)" "in_store example_heap NoData (Some 1)"
  "in_store example_heap NoData None"
  by (simp_all add: in_store_def example_heap_def)

lemma example_items:
  "sort_key fst (dict_setitem ''api_type'' (PyStr ''json'') (example_heap ! 0)) =
     [(''api_type'', PyStr ''json''), (''kind'', PyStr ''self''), (''title'', PyStr ''hello'')]"
  by code_simp

lemma example_transmitted_params:
  "map (\<lambda>x. fst (request (answers ok_response) example_heap (session_with (Some ''token'') True)
                    ''GET'' ''/r/all'' NoData None None (Some 1)) ! kw_params (snd x))
     (requests_sent (events_of (snd (request (answers ok_response) example_heap
        (session_with (Some ''token'') True) ''GET'' ''/r/all'' NoData None None (Some 1)))))
   = [[(''raw_json'', PyInt 1), (''limit'', PyInt 25)]]"
  "map (\<lambda>x. fst (request (answers ok_response) example_heap (session_with (Some ''token'') True)
                    ''GET'' ''/r/all'' NoData None None None) ! kw_params (snd x))
     (requests_sent (events_of (snd (request (answers ok_response) example_heap
        (session_with (Some ''token'') True) ''GET'' ''/r/all'' NoData None None None))))
   = [[(''raw_json'', PyInt 1)]]"
  by code_simp+

text \<open>
  C7. When \<^verbatim>\<open>data\<close> is a dict, every request of the call carries as its body the items
  of the caller's dict with \<^verbatim>\<open>"api_type"\<close> set to \<^verbatim>\<open>"json"\<close>, sorted by key: the list is
  sorted, it has exactly the items of the updated dict and, the keys of a dict being
  distinct, it maps every key as the caller's dict does except \<^verbatim>\<open>api_type\<close>. At least one
  request is sent. The caller's dict, like every object of the caller's store, is
  unchanged after the call: the update went to the copy.
\<close>

theorem mapping_body_sorted_with_api_type:
  assumes "in_store h (DictData a) params0"
  shows "requests_sent (events_of (snd (request E h s m path (DictData a) f j params0))) \<noteq> [] \<and>
     list_all (\<lambda>x. kw_data (snd x) =
                  ItemsData (sort_key fst (dict_setitem ''api_type'' (PyStr ''json'') (h ! a))))
       (requests_sent (events_of (snd (request E h s m path (DictData a) f j params0)))) \<and>
     sorted (map fst (sort_key fst (dict_setitem ''api_type'' (PyStr ''json'') (h ! a)))) \<and>
     (''api_type'', PyStr ''json'')
        \<in> set (sort_key fst (dict_setitem ''api_type'' (PyStr ''json'') (h ! a))) \<and>
     set (sort_key fst (dict_setitem ''api_type'' (PyStr ''json'') (h ! a))) =
       set (dict_setitem ''api_type'' (PyStr ''json'') (h ! a)) \<and>
     (distinct (map fst (h ! a)) \<longrightarrow>
        distinct (map fst (sort_key fst (dict_setitem ''api_type'' (PyStr ''json'') (h ! a)))) \<and>
        map_of (sort_key fst (dict_setitem ''api_type'' (PyStr ''json'') (h ! a))) =
          (map_of (h ! a))(''api_type'' \<mapsto> PyStr ''json'')) \<and>
     fst (request E h s m path (DictData a) f j params0) ! a = h ! a \<and>
     (\<forall>b < length h. fst (request E h s m path (DictData a) f j params0) ! b = h ! b)"
proof -
  let ?items = "sort_key fst (dict_setitem ''api_type'' (PyStr ''json'') (h ! a))"
  from request_canonical[OF assms, of E s m path f j] obtain h' p where
    r: "request E h s m path (DictData a) f j params0 =
           (h', request_with_retries E
                  \<lparr>data = canonical_data h (DictData a), files = f, json = j, meth = m,
                   params = p, url = urljoin E (oauth_url E) path\<rparr> 3 s)"
    and frame: "\<forall>b < length h. h' ! b = h ! b"
    by blast
  let ?c = "\<lparr>data = canonical_data h (DictData a), files = f, json = j, meth = m,
             params = p, url = urljoin E (oauth_url E) path\<rparr>"
  have a: "a < length h" using assms by (simp add: in_store_def)
  have sent: "requests_sent (events_of (request_with_retries E ?c 3 s)) \<noteq> []"
    "list_all (carries_call ?c) (requests_sent (events_of (request_with_retries E ?c 3 s)))"
    using requests_sent_carry_call[of E ?c 3 s] by simp_all
  have "list_all (\<lambda>x. kw_data (snd x) = ItemsData ?items)
      (requests_sent (events_of (request_with_retries E ?c 3 s)))"
    using sent(2) by (rule list.pred_mono_strong) (simp add: carries_call_def canonical_data_def)
  moreover have "distinct (map fst ?items) \<and>
      map_of ?items = (map_of (h ! a))(''api_type'' \<mapsto> PyStr ''json'')"
    if "distinct (map fst (h ! a))"
    using that
    by (simp add: distinct_map_sort_key distinct_dict_setitem map_of_sort_key map_of_dict_setitem)
  ultimately show ?thesis
    using sent(1) frame a by (simp add: r dict_setitem_member)
qed

theorem mapping_body_sorted_with_api_type_witness:
  "in_store example_heap (DictData 0) (Some 1) \<and>
   requests_sent (events_of (snd (request (answers ok_response) example_heap
      (session_with (Some ''token'') True) ''POST'' ''/api/submit'' (DictData 0) None None
      (Some 1)))) \<noteq> [] \<and>
   list_all (\<lambda>x. kw_data (snd x) =
                ItemsData [(''api_type'', PyStr ''json''), (''kind'', PyStr ''self''),
                           (''title'', PyStr ''hello'')])
     (requests_sent (events_of (snd (request (answers ok_response) example_heap
        (session_with (Some ''token'') True) ''POST'' ''/api/submit'' (DictData 0) None None
        (Some 1))))) \<and>
   fst (request (answers ok_response) example_heap (session_with (Some ''token'') True)
          ''POST'' ''/api/submit'' (DictData 0) None None (Some 1)) ! 0
     = [(''title'', PyStr ''hello''), (''kind'', PyStr ''self''), (''api_type'', PyStr ''xml'')]"
  using mapping_body_sorted_with_api_type[OF example_in_store(1), of "answers ok_response"
      "session_with (Some ''token'') True" "''POST''" "''/api/submit''" None None]
    example_in_store(1)
  by (simp add: example_items) (simp add: example_heap_def)

text \<open>
  C8. Whether \<^verbatim>\<open>params\<close> is \<^verbatim>\<open>None\<close> or a dict, every request of the call carries a
  params dict that maps \<^verbatim>\<open>raw_json\<close> to 1, whatever the caller's dict had there, and
  every other key as the caller's dict does. That dict is an object the call allocated
  (its address is beyond the caller's store), and the caller's own params dict, like
  every object of the caller's store, is unchanged after the call.
\<close>

theorem params_carry_raw_json:
  assumes "in_store h data0 params0"
  shows "requests_sent (events_of (snd (request E h s m path data0 f j params0))) \<noteq> [] \<and>
     list_all (\<lambda>x. length h \<le> kw_params (snd x) \<and>
                  map_of (fst (request E h s m path data0 f j params0) ! kw_params (snd x)) =
                    (map_of (case params0 of None \<Rightarrow> [] | Some q \<Rightarrow> h ! q))
                      (''raw_json'' \<mapsto> PyInt 1))
       (requests_sent (events_of (snd (request E h s m path data0 f j params0)))) \<and>
     (\<forall>q. params0 = Some q \<longrightarrow> fst (request E h s m path data0 f j params0) ! q = h ! q) \<and>
     (\<forall>b < length h. fst (request E h s m path data0 f j params0) ! b = h ! b)"
proof -
  from request_canonical[OF assms, of E s m path f j] obtain h' p where
    r: "request E h s m path data0 f j params0 =
           (h', request_with_retries E
                  \<lparr>data = canonical_data h data0, files = f, json = j, meth = m,
                   params = p, url = urljoin E (oauth_url E) path\<rparr> 3 s)"
    and p: "length h \<le> p" "h' ! p = canonical_params h params0"
    and frame: "\<forall>b < length h. h' ! b = h ! b"
    by blast
  let ?c = "\<lparr>data = canonical_data h data0, files = f, json = j, meth = m,
             params = p, url = urljoin E (oauth_url E) path\<rparr>"
  have sent: "requests_sent (events_of (request_with_retries E ?c 3 s)) \<noteq> []"
    "list_all (carries_call ?c) (requests_sent (events_of (request_with_retries E ?c 3 s)))"
    using requests_sent_carry_call[of E ?c 3 s] by simp_all
  have "list_all (\<lambda>x. length h \<le> kw_params (snd x) \<and>
                  map_of (h' ! kw_params (snd x)) =
                    (map_of (case params0 of None \<Rightarrow> [] | Some q \<Rightarrow> h ! q))
                      (''raw_json'' \<mapsto> PyInt 1))
      (requests_sent (events_of (request_with_retries E ?c 3 s)))"
    using sent(2)
    by (rule list.pred_mono_strong)
       (simp add: carries_call_def p canonical_params_def map_of_dict_setitem)
  moreover have "\<forall>q. params0 = Some q \<longrightarrow> h' ! q = h ! q"
    using assms frame by (auto simp add: in_store_def)
  moreover have "fst (request E h s m path data0 f j params0) = h'"
    "snd (request E h s m path data0 f j params0) = request_with_retries E ?c 3 s"
    by (simp_all add: r)
  ultimately show ?thesis
    using sent(1) frame by (simp only: simp_thms)
qed

theorem params_carry_raw_json_witness:
  "in_store example_heap NoData (Some 1) \<and>
   requests_sent (events_of (snd (request (answers ok_response) example_heap
      (session_with (Some ''token'') True) ''GET'' ''/r/all'' NoData None None (Some 1)))) \<noteq> [] \<and>
   list_all (\<lambda>x. length example_heap \<le> kw_params (snd x) \<and>
                map_of (fst (request (answers ok_response) example_heap
                               (session_with (Some ''token'') True) ''GET'' ''/r/all'' NoData
                               None None (Some 1)) ! kw_params (snd x)) =
                  (map_of (example_heap ! 1))(''raw_json'' \<mapsto> PyInt 1))
     (requests_sent (events_of (snd (request (answers ok_response) example_heap
        (session_with (Some ''token'') True) ''GET'' ''/r/all'' NoData None None (Some 1))))) \<and>
   map (\<lambda>x. fst (request (answers ok_response) example_heap (session_with (Some ''token'') True)
                    ''GET'' ''/r/all'' NoData None None (Some 1)) ! kw_params (snd x))
     (requests_sent (events_of (snd (request (answers ok_response) example_heap
        (session_with (Some ''token'') True) ''GET'' ''/r/all'' NoData None None (Some 1)))))
     = [[(''raw_json'', PyInt 1), (''limit'', PyInt 25)]] \<and>
   fst (request (answers ok_response) example_heap (session_with (Some ''token'') True)
          ''GET'' ''/r/all'' NoData None None (Some 1)) ! 1
     = [(''raw_json'', PyInt 0), (''limit'', PyInt 25)] \<and>
   in_store example_heap NoData None \<and>
   list_all (\<lambda>x. length example_heap \<le> kw_params (snd x) \<and>
                map_of (fst (request (answers ok_response) example_heap
                               (session_with (Some ''token'') True) ''GET'' ''/r/all'' NoData
                               None None None) ! kw_params (snd x)) =
                  [''raw_json'' \<mapsto> PyInt 1])
     (requests_sent (events_of (snd (request (answers ok_response) example_heap
        (session_with (Some ''token'') True) ''GET'' ''/r/all'' NoData None None None))))"
  using params_carry_raw_json[OF example_in_store(2), of "answers ok_response"
      "session_with (Some ''token'') True" "''GET''" "''/r/all''" None None]
    params_carry_raw_json[OF example_in_store(3), of "answers ok_response"
      "session_with (Some ''token'') True" "''GET''" "''/r/all''" None None]
    example_in_store(2,3) example_transmitted_params(1)
  by simp (simp add: example_heap_def)

subsection \<open>The retry counter\<close>

lemma request_runs_default_budget:
  "\<exists>h' c'. request E h s m path d f j ps = (h', request_with_retries E c' 3 s)"
  unfolding request_def Let_def case_prod_beta by blast

lemma request_at_most_three:
  "1 \<le> attempts_in (events_of (snd (request E h s m path d f j ps))) \<and>
   attempts_in (events_of (snd (request E h s m path d f j ps))) \<le> 3"
proof -
  from request_runs_default_budget[of E h s m path d f j ps] obtain h' c' where
    r: "request E h s m path d f j ps = (h', request_with_retries E c' 3 s)" by blast
  from rwr_counters[of 3 E c' s] show ?thesis by (auto simp add: r)
qed

lemma three_failures_counters:
  "counters (events_of (request_with_retries three_failures example_call 3
      (session_with (Some ''token'') True))) = [3, 2, 1]"
  by code_simp

text \<open>
  C9. A call entered with a retry budget \<open>n\<close> of at least 1 makes \<open>k\<close> attempts with
  \<open>1 \<le> k \<le> n\<close>; the counter values of the successive attempts are \<open>n, n - 1, ...,
  n - k + 1\<close>, so the counter goes down by exactly 1 with each retry and never falls
  below 1; there are \<open>k - 1\<close> retries, each taken at a counter above 1. The recursion is
  a total function: it terminates on every input. \<^verbatim>\<open>Session.request\<close> runs it with the
  default budget 3, so a logical call makes at least one and at most three attempts.
\<close>

theorem retry_counter_decreases:
  assumes "1 \<le> n"
  shows "(\<exists>k. 1 \<le> k \<and> int k \<le> n \<and>
           counters (events_of (request_with_retries E c n s)) = map (\<lambda>i. n - int i) [0..<k] \<and>
           (\<forall>m \<in> set (counters (events_of (request_with_retries E c n s))). 1 \<le> m) \<and>
           attempts_in (events_of (request_with_retries E c n s)) = k \<and>
           retries_in (events_of (request_with_retries E c n s)) = k - 1 \<and>
           (\<forall>i < k - 1. 1 < counters (events_of (request_with_retries E c n s)) ! i)) \<and>
         1 \<le> attempts_in (events_of (snd (request E h s0 m path d f j ps))) \<and>
         attempts_in (events_of (snd (request E h s0 m path d f j ps))) \<le> 3"
proof -
  from rwr_counters[of n E c s] obtain k where k: "1 \<le> k" "k \<le> nat n \<or> k = 1"
    "counters (events_of (request_with_retries E c n s)) = map (\<lambda>i. n - int i) [0..<k]"
    "attempts_in (events_of (request_with_retries E c n s)) = k"
    "retries_in (events_of (request_with_retries E c n s)) = k - 1"
    by blast
  from k(2) assms have le: "int k \<le> n" by auto
  have "\<forall>m \<in> set (map (\<lambda>i. n - int i) [0..<k]). 1 \<le> m" using le by auto
  moreover have "\<forall>i < k - 1. 1 < map (\<lambda>i. n - int i) [0..<k] ! i" using le by auto
  ultimately have "\<exists>k. 1 \<le> k \<and> int k \<le> n \<and>
           counters (events_of (request_with_retries E c n s)) = map (\<lambda>i. n - int i) [0..<k] \<and>
           (\<forall>m \<in> set (counters (events_of (request_with_retries E c n s))). 1 \<le> m) \<and>
           attempts_in (events_of (request_with_retries E c n s)) = k \<and>
           retries_in (events_of (request_with_retries E c n s)) = k - 1 \<and>
           (\<forall>i < k - 1. 1 < counters (events_of (request_with_retries E c n s)) ! i)"
    using k le by (intro exI[of _ k]) (simp only: simp_thms)
  then show ?thesis using request_at_most_three[of E h s0 m path d f j ps] by blast
qed

theorem retry_counter_decreases_witness:
  "(1::int) \<le> 3 \<and>
   counters (events_of (request_with_retries three_failures example_call 3
      (session_with (Some ''token'') True))) = [3, 2, 1] \<and>
   (\<exists>k. 1 \<le> k \<and> int k \<le> 3 \<and>
      counters (events_of (request_with_retries three_failures example_call 3
         (session_with (Some ''token'') True))) = map (\<lambda>i. 3 - int i) [0..<k] \<and>
      (\<forall>m \<in> set (counters (events_of (request_with_retries three_failures example_call 3
         (session_with (Some ''token'') True)))). 1 \<le> m) \<and>
      attempts_in (events_of (request_with_retries three_failures example_call 3
         (session_with (Some ''token'') True))) = k \<and>
      retries_in (events_of (request_with_retries three_failures example_call 3
         (session_with (Some ''token'') True))) = k - 1 \<and>
      (\<forall>i < k - 1. 1 < counters (events_of (request_with_retries three_failures
         example_call 3 (session_with (Some ''token'') True))) ! i)) \<and>
   1 \<le> attempts_in (events_of (snd (request three_failures example_heap
         (session_with (Some ''token'') True) ''GET'' ''/r/all'' NoData None None None))) \<and>
   attempts_in (events_of (snd (request three_failures example_heap
         (session_with (Some ''token'') True) ''GET'' ''/r/all'' NoData None None None))) \<le> 3"
proof -
  have h: "(1::int) \<le> 3" by simp
  show ?thesis
    using h three_failures_counters
      retry_counter_decreases[OF h, of three_failures example_call
        "session_with (Some ''token'') True" example_heap
        "session_with (Some ''token'') True" "''GET''" "''/r/all''" NoData None None None]
    by blast
qed

subsection \<open>Transport failures, reported or retried\<close>

lemma transport_retry_follows:
  assumes t: "transport_outcome E c retries s = Raises exc"
    and r: "1 < retries" and x: "exc \<in> RETRY_EXCEPTIONS"
  shows "request_with_retries E c retries s =
           prepend (attempt_events E c retries s @ [Retrying (Inl exc)])
             (request_with_retries E c (retries - 1) (attempt_state E c retries s))"
    and "\<exists>rest. events_of (request_with_retries E c retries s) =
           attempt_events E c retries s @ Retrying (Inl exc) #
           attempt_events E c (retries - 1) (attempt_state E c retries s) @ rest"
    and "\<exists>rest. requests_sent (events_of (request_with_retries E c retries s)) =
           requests_sent (attempt_events E c retries s) @
           requests_sent (attempt_events E c (retries - 1) (attempt_state E c retries s)) @ rest"
    and "2 \<le> attempts_in (events_of (request_with_retries E c retries s))"
proof -
  have "attempt_result E c retries s = Inr (None, Some exc)"
    using r x by (auto simp add: attempt_result_eq t)
  then show eq: "request_with_retries E c retries s =
           prepend (attempt_events E c retries s @ [Retrying (Inl exc)])
             (request_with_retries E c (retries - 1) (attempt_state E c retries s))"
    using r by (rule attempt_swallowed)
  obtain rest where rest:
    "events_of (request_with_retries E c (retries - 1) (attempt_state E c retries s)) =
       attempt_events E c (retries - 1) (attempt_state E c retries s) @ rest"
    using events_start_with_attempt by blast
  show "\<exists>rest. events_of (request_with_retries E c retries s) =
           attempt_events E c retries s @ Retrying (Inl exc) #
           attempt_events E c (retries - 1) (attempt_state E c retries s) @ rest"
    by (simp add: eq rest)
  show "\<exists>rest. requests_sent (events_of (request_with_retries E c retries s)) =
           requests_sent (attempt_events E c retries s) @
           requests_sent (attempt_events E c (retries - 1) (attempt_state E c retries s)) @ rest"
    by (simp add: eq rest)
  obtain k where "1 \<le> k"
    "attempts_in (events_of (request_with_retries E c (retries - 1) (attempt_state E c retries s))) = k"
    using rwr_counters[of "retries - 1" E c "attempt_state E c retries s"] by blast
  then show "2 \<le> attempts_in (events_of (request_with_retries E c retries s))"
    by (simp add: eq attempt_events_counts)
qed

text \<open>
  C6. Whatever exception the HTTP session raises, \<^verbatim>\<open>Requestor.request\<close> raises a
  \<^verbatim>\<open>RequestException\<close> that carries that exception and the call's positional and
  keyword arguments. The session retries such an attempt exactly when more than one
  attempt remains and the cause is a chunked-encoding error, a connection error or a read
  timeout; otherwise the call ends at once with that \<^verbatim>\<open>RequestException\<close>, after the
  one request of this attempt. A retried attempt is followed by a further one: the call
  continues as \<^verbatim>\<open>_request_with_retries\<close> with one attempt fewer, from the state the
  failed attempt left, so that a second request of the same call is sent and the outcome
  is that of the further attempts.
\<close>

theorem transport_failures_normalised:
  "(http E (requests_made s) args (TIMEOUT E) kw = Raises exc \<longrightarrow>
      (\<exists>e. snd (snd (Requestor_request E args kw s)) = Inl e \<and>
           original_exception e = exc \<and> request_args e = args \<and> request_kwargs e = kw)) \<and>
   (transport_outcome E c retries s = Raises exc \<longrightarrow>
      ((0 < retries_in (events_of (request_with_retries E c retries s))) =
         (1 < retries \<and> exc \<in> {ChunkedEncodingError, ConnectionError, ReadTimeout})) \<and>
      (\<not> (1 < retries \<and> exc \<in> {ChunkedEncodingError, ConnectionError, ReadTimeout}) \<longrightarrow>
         (\<exists>k. outcome_of (request_with_retries E c retries s) =
                 Inl (RequestError (RequestException exc [meth c, url c] k)) \<and>
               kw_data k = data c \<and> kw_params k = params c \<and> kw_json k = json c \<and>
               \<not> allow_redirects k) \<and>
         events_of (request_with_retries E c retries s) = attempt_events E c retries s \<and>
         attempts_in (events_of (request_with_retries E c retries s)) = 1) \<and>
      (1 < retries \<and> exc \<in> {ChunkedEncodingError, ConnectionError, ReadTimeout} \<longrightarrow>
         request_with_retries E c retries s =
           prepend (attempt_events E c retries s @ [Retrying (Inl exc)])
             (request_with_retries E c (retries - 1) (attempt_state E c retries s)) \<and>
         requests_made (attempt_state E c retries s) = requests_made s + 1 \<and>
         (\<exists>rest. events_of (request_with_retries E c retries s) =
            attempt_events E c retries s @ Retrying (Inl exc) #
            attempt_events E c (retries - 1) (attempt_state E c retries s) @ rest) \<and>
         (\<exists>k1 k2 rest. requests_sent (events_of (request_with_retries E c retries s)) =
            ([meth c, url c], k1) # ([meth c, url c], k2) # rest \<and>
            carries_call c ([meth c, url c], k1) \<and> carries_call c ([meth c, url c], k2)) \<and>
         2 \<le> attempts_in (events_of (request_with_retries E c retries s)) \<and>
         outcome_of (request_with_retries E c retries s) =
           outcome_of (request_with_retries E c (retries - 1) (attempt_state E c retries s))))"
proof (intro conjI impI)
  assume "http E (requests_made s) args (TIMEOUT E) kw = Raises exc"
  then show "\<exists>e. snd (snd (Requestor_request E args kw s)) = Inl e \<and>
           original_exception e = exc \<and> request_args e = args \<and> request_kwargs e = kw"
    by (simp add: Requestor_request_raises)
next
  assume "transport_outcome E c retries s = Raises exc"
  then show "(0 < retries_in (events_of (request_with_retries E c retries s))) =
         (1 < retries \<and> exc \<in> {ChunkedEncodingError, ConnectionError, ReadTimeout})"
    by (simp add: transport_raises_attempt(1) retry_exceptions_eq)
next
  assume t: "transport_outcome E c retries s = Raises exc"
    and n: "\<not> (1 < retries \<and> exc \<in> {ChunkedEncodingError, ConnectionError, ReadTimeout})"
  from n have n': "\<not> (1 < retries \<and> exc \<in> RETRY_EXCEPTIONS)"
    by (simp add: retry_exceptions_eq)
  from transport_raises_attempt(2)[OF t n'] obtain k where
    k: "request_with_retries E c retries s =
          (attempt_events E c retries s, attempt_state E c retries s,
           Inl (RequestError (RequestException exc [meth c, url c] k)))"
       "kw_data k = data c" "kw_params k = params c" "kw_json k = json c" "\<not> allow_redirects k"
    by blast
  show "\<exists>k. outcome_of (request_with_retries E c retries s) =
                 Inl (RequestError (RequestException exc [meth c, url c] k)) \<and>
               kw_data k = data c \<and> kw_params k = params c \<and> kw_json k = json c \<and>
               \<not> allow_redirects k"
    using k by (intro exI[of _ k]) simp
  show "events_of (request_with_retries E c retries s) = attempt_events E c retries s"
    using k by simp
  show "attempts_in (events_of (request_with_retries E c retries s)) = 1"
    using k by (simp add: attempt_events_counts)
next
  assume t: "transport_outcome E c retries s = Raises exc"
    and y: "1 < retries \<and> exc \<in> {ChunkedEncodingError, ConnectionError, ReadTimeout}"
  from y have r: "1 < retries" and x: "exc \<in> RETRY_EXCEPTIONS"
    by (simp_all add: retry_exceptions_eq)
  note f = transport_retry_follows[OF t r x]
  show "request_with_retries E c retries s =
           prepend (attempt_events E c retries s @ [Retrying (Inl exc)])
             (request_with_retries E c (retries - 1) (attempt_state E c retries s))"
    by (rule f(1))
  show "requests_made (attempt_state E c retries s) = requests_made s + 1"
    by (rule attempt_state_simps(1))
  show "\<exists>rest. events_of (request_with_retries E c retries s) =
            attempt_events E c retries s @ Retrying (Inl exc) #
            attempt_events E c (retries - 1) (attempt_state E c retries s) @ rest"
    by (rule f(2))
  from f(3) obtain rest where
    "requests_sent (events_of (request_with_retries E c retries s)) =
       requests_sent (attempt_events E c retries s) @
       requests_sent (attempt_events E c (retries - 1) (attempt_state E c retries s)) @ rest"
    by blast
  then show "\<exists>k1 k2 rest. requests_sent (events_of (request_with_retries E c retries s)) =
            ([meth c, url c], k1) # ([meth c, url c], k2) # rest \<and>
            carries_call c ([meth c, url c], k1) \<and> carries_call c ([meth c, url c], k2)"
    by (simp add: requests_sent_attempt carries_call_def)
  show "2 \<le> attempts_in (events_of (request_with_retries E c retries s))"
    by (rule f(4))
  show "outcome_of (request_with_retries E c retries s) =
           outcome_of (request_with_retries E c (retries - 1) (attempt_state E c retries s))"
    by (simp add: f(1))
qed

theorem transport_failures_normalised_witness:
  "transport_outcome connection_error_then_ok example_call 3 (session_with (Some ''token'') True)
     = Raises ConnectionError \<and>
   0 < retries_in (events_of (request_with_retries connection_error_then_ok example_call 3
         (session_with (Some ''token'') True))) \<and>
   2 \<le> attempts_in (events_of (request_with_retries connection_error_then_ok example_call 3
         (session_with (Some ''token'') True))) \<and>
   2 \<le> length (requests_sent (events_of (request_with_retries connection_error_then_ok
         example_call 3 (session_with (Some ''token'') True)))) \<and>
   outcome_of (request_with_retries connection_error_then_ok example_call 3
         (session_with (Some ''token'') True)) =
     outcome_of (request_with_retries connection_error_then_ok example_call 2
         (attempt_state connection_error_then_ok example_call 3
            (session_with (Some ''token'') True))) \<and>
   transport_outcome connection_error_then_ok example_call 1 (session_with (Some ''token'') True)
     = Raises ConnectionError \<and>
   retries_in (events_of (request_with_retries connection_error_then_ok example_call 1
         (session_with (Some ''token'') True))) = 0 \<and>
   (\<exists>k. outcome_of (request_with_retries connection_error_then_ok example_call 1
            (session_with (Some ''token'') True)) =
          Inl (RequestError (RequestException ConnectionError
                 [meth example_call, url example_call] k))) \<and>
   transport_outcome other_failure example_call 3 (session_with (Some ''token'') True)
     = Raises (OtherCause ''InvalidURL'') \<and>
   retries_in (events_of (request_with_retries other_failure example_call 3
         (session_with (Some ''token'') True))) = 0 \<and>
   attempts_in (events_of (request_with_retries other_failure example_call 3
         (session_with (Some ''token'') True))) = 1 \<and>
   (\<exists>k. outcome_of (request_with_retries other_failure example_call 3
            (session_with (Some ''token'') True)) =
          Inl (RequestError (RequestException (OtherCause ''InvalidURL'')
                 [meth example_call, url example_call] k))) \<and>
   (\<exists>e. snd (snd (Requestor_request other_failure [''GET'', ''/'']
                    \<lparr>allow_redirects = False, kw_data = NoData, kw_json = None,
                     kw_params = 0, kw_headers = []\<rparr>
                    (session_with (Some ''token'') True))) = Inl e \<and>
        original_exception e = OtherCause ''InvalidURL'' \<and> request_args e = [''GET'', ''/''])"
proof -
  let ?s = "session_with (Some ''token'') True"
  let ?kw = "\<lparr>allow_redirects = False, kw_data = NoData, kw_json = None,
              kw_params = 0, kw_headers = []\<rparr> :: nat kwargs"
  have c3: "transport_outcome connection_error_then_ok example_call 3 ?s = Raises ConnectionError"
    and c1: "transport_outcome connection_error_then_ok example_call 1 ?s = Raises ConnectionError"
    by (rule transport_outcome_at, simp add: connection_error_then_ok_def scripted_http)+
  have o3: "transport_outcome other_failure example_call 3 ?s = Raises (OtherCause ''InvalidURL'')"
    by (rule transport_outcome_at) (simp add: other_failure_def scripted_http)
  have h: "http other_failure (requests_made ?s) [''GET'', ''/''] (TIMEOUT other_failure) ?kw
      = Raises (OtherCause ''InvalidURL'')"
    by (simp add: other_failure_def scripted_http)
  have cne: "ConnectionError \<in> {ChunkedEncodingError, ConnectionError, ReadTimeout}"
    and one: "OtherCause ''InvalidURL'' \<notin> {ChunkedEncodingError, ConnectionError, ReadTimeout}"
    by simp_all
  note A = transport_failures_normalised[where E = other_failure and s = "?s"
      and args = "[''GET'', ''/'']" and kw = "?kw" and exc = "OtherCause ''InvalidURL''"
      and c = example_call and retries = 3]
  note B = transport_failures_normalised[where E = connection_error_then_ok and s = "?s"
      and args = "[''GET'', ''/'']" and kw = "?kw" and exc = ConnectionError
      and c = example_call and retries = 3]
  note C = transport_failures_normalised[where E = connection_error_then_ok and s = "?s"
      and args = "[''GET'', ''/'']" and kw = "?kw" and exc = ConnectionError
      and c = example_call and retries = 1]
  from A o3 h one have a: "retries_in (events_of (request_with_retries other_failure example_call 3 ?s)) = 0"
    "attempts_in (events_of (request_with_retries other_failure example_call 3 ?s)) = 1"
    "\<exists>k. outcome_of (request_with_retries other_failure example_call 3 ?s) =
          Inl (RequestError (RequestException (OtherCause ''InvalidURL'')
                 [meth example_call, url example_call] k))"
    "\<exists>e. snd (snd (Requestor_request other_failure [''GET'', ''/''] ?kw ?s)) = Inl e \<and>
        original_exception e = OtherCause ''InvalidURL'' \<and> request_args e = [''GET'', ''/'']"
    by auto
  have r3: "(1::int) < 3" by simp
  note B' = B[THEN conjunct2, THEN mp, OF c3]
  note R = B'[THEN conjunct2, THEN conjunct2, THEN mp, OF conjI[OF r3 cne]]
  note R4 = R[THEN conjunct2, THEN conjunct2, THEN conjunct2]
  from B'[THEN conjunct1] r3 have b:
    "0 < retries_in (events_of (request_with_retries connection_error_then_ok example_call 3 ?s))"
    by simp
  from R4[THEN conjunct2, THEN conjunct1] have b1:
    "2 \<le> attempts_in (events_of (request_with_retries connection_error_then_ok example_call 3 ?s))"
    .
  from R4[THEN conjunct2, THEN conjunct2] have b3:
    "outcome_of (request_with_retries connection_error_then_ok example_call 3 ?s) =
     outcome_of (request_with_retries connection_error_then_ok example_call 2
         (attempt_state connection_error_then_ok example_call 3 ?s))"
    by simp
  from R4[THEN conjunct1] obtain k1 k2 rest where
    "requests_sent (events_of (request_with_retries connection_error_then_ok example_call 3 ?s)) =
       ([meth example_call, url example_call], k1) #
       ([meth example_call, url example_call], k2) # rest"
    by blast
  then have b2: "2 \<le> length (requests_sent (events_of
      (request_with_retries connection_error_then_ok example_call 3 ?s)))"
    by simp
  from C c1 have c:
    "retries_in (events_of (request_with_retries connection_error_then_ok example_call 1 ?s)) = 0"
    "\<exists>k. outcome_of (request_with_retries connection_error_then_ok example_call 1 ?s) =
          Inl (RequestError (RequestException ConnectionError
                 [meth example_call, url example_call] k))"
    by auto
  show ?thesis
    using a b b1 b2 b3 c c1 c3 o3 by (intro conjI) assumption+
qed

end
